theory Spec2Isabelle
  imports Main
begin

section \<open>JavaScript strings and numbers\<close>

text \<open>
  Strings are lists of characters; a character stands for one code unit below 256.
  \<open>Number.prototype.toString\<close> on a non-negative integer (an array length) gives
  its decimal digits.
\<close>

definition digit :: "nat \<Rightarrow> char" where
  "digit d = ''0123456789'' ! d"

fun toString :: "nat \<Rightarrow> string" where
  "toString n = (if n < 10 then [digit n] else toString (n div 10) @ [digit (n mod 10)])"

declare toString.simps [simp del]

text \<open>\<open>String.prototype.trim\<close> removes white space and line terminators from both
  ends: among the code units below 256 these are TAB, LF, VT, FF, CR, SPACE and
  NO-BREAK SPACE.\<close>

definition isWhiteSpace :: "char \<Rightarrow> bool" where
  "isWhiteSpace c \<longleftrightarrow>
     c \<in> set [CHR 0x09, CHR 0x0A, CHR 0x0B, CHR 0x0C, CHR 0x0D, CHR 0x20, CHR 0xA0]"

definition trim :: "string \<Rightarrow> string" where
  "trim s = rev (dropWhile isWhiteSpace (rev (dropWhile isWhiteSpace s)))"

section \<open>Page Scanner: the detected-feature set\<close>

text \<open>
  The content script keeps \<open>this.detectedFeatures\<close>, a JavaScript \<open>Set\<close> of
  objects \<open>{ id, name, type, evidence }\<close>. A \<open>Set\<close> of objects compares by
  reference and iterates in insertion order, so it is modelled as the list of its
  objects in insertion order; assigning to a field of a member changes the member in
  place.
\<close>

record detected =
  id_f :: string
  name_f :: string
  type_f :: string
  evidence_f :: string

text \<open>\<open>features.find(f => f.id === id)\<close>: the first member with that id, if any.\<close>

definition find_existing :: "string \<Rightarrow> detected list \<Rightarrow> detected option" where
  "find_existing i fs = find (\<lambda>f. id_f f = i) fs"

text \<open>\<open>existing.evidence = evidence\<close>: the object that \<open>find\<close> returned is a member
  of the set, and the assignment changes that member (the first with the id).\<close>

fun assign_evidence :: "string \<Rightarrow> string \<Rightarrow> detected list \<Rightarrow> detected list" where
  "assign_evidence i e [] = []"
| "assign_evidence i e (f # fs) =
     (if id_f f = i then f\<lparr>evidence_f := e\<rparr> # fs else f # assign_evidence i e fs)"

definition addFeature ::
  "string \<Rightarrow> string \<Rightarrow> string \<Rightarrow> string \<Rightarrow> detected list \<Rightarrow> detected list" where
  "addFeature i n t e fs =
     (case find_existing i fs of
        Some existing \<Rightarrow> assign_evidence i e fs
      | None \<Rightarrow> fs @ [\<lparr>id_f = i, name_f = n, type_f = t, evidence_f = e\<rparr>])"

text \<open>A call of \<open>addFeature\<close> is the tuple of its arguments; a sequence of calls on a
  new instance starts from the empty set of the constructor.\<close>

type_synonym call = "string \<times> string \<times> string \<times> string"

definition call_id :: "call \<Rightarrow> string" where
  "call_id c = fst c"

definition call_name :: "call \<Rightarrow> string" where
  "call_name c = fst (snd c)"

definition call_type :: "call \<Rightarrow> string" where
  "call_type c = fst (snd (snd c))"

definition call_evidence :: "call \<Rightarrow> string" where
  "call_evidence c = snd (snd (snd c))"

definition apply_call :: "detected list \<Rightarrow> call \<Rightarrow> detected list" where
  "apply_call fs c = addFeature (call_id c) (call_name c) (call_type c) (call_evidence c) fs"

definition add_all :: "call list \<Rightarrow> detected list" where
  "add_all calls = foldl apply_call [] calls"

definition first_call :: "string \<Rightarrow> call list \<Rightarrow> call option" where
  "first_call i calls = find (\<lambda>c. call_id c = i) calls"

definition last_call :: "string \<Rightarrow> call list \<Rightarrow> call option" where
  "last_call i calls = find (\<lambda>c. call_id c = i) (rev calls)"

text \<open>What the claim says of one member \<open>f\<close> of the resulting set: its name and
  type are those of the first call with its id, its evidence that of the last.\<close>

definition agrees :: "call list \<Rightarrow> detected \<Rightarrow> bool" where
  "agrees calls f =
     (case first_call (id_f f) calls of
        None \<Rightarrow> False
      | Some c1 \<Rightarrow>
          (case last_call (id_f f) calls of
             None \<Rightarrow> False
           | Some c2 \<Rightarrow>
               name_f f = call_name c1 \<and> type_f f = call_type c1 \<and>
               evidence_f f = call_evidence c2))"

definition grid_flex_grid :: "call list" where
  "grid_flex_grid =
     [(''css-grid'', ''CSS Grid Layout'', ''css'', ''Found in stylesheets''),
      (''flexbox'', ''CSS Flexible Box Layout'', ''css'', ''Found in stylesheets''),
      (''css-grid'', ''Grid again'', ''layout'', ''Active on div'')]"

section \<open>Page Scanner: regular expressions\<close>

text \<open>
  The Scanner tests the page's style and script text against regular-expression
  literals. The literals use characters, character classes (\<open>[...]\<close>, \<open>[^...]\<close>,
  the escapes for white space and word characters), the dot, sequence, alternative,
  star and plus, and no flags. A regular expression is written as its syntax tree;
  \<open>test\<close> holds when some part of the text matches, decided by derivatives.
\<close>

datatype cls =
    Chars string
  | Range char char
  | SpaceClass
  | WordClass

fun in_cls :: "char \<Rightarrow> cls \<Rightarrow> bool" where
  "in_cls c (Chars s) = (c \<in> set s)"
| "in_cls c (Range a b) = ((of_char a :: nat) \<le> of_char c \<and> (of_char c :: nat) \<le> of_char b)"
| "in_cls c SpaceClass = isWhiteSpace c"
| "in_cls c WordClass =
     (c \<in> set ''ABCDEFGHIJKLMNOPQRSTUVWXYZabcdefghijklmnopqrstuvwxyz0123456789_'')"

datatype regex =
    Never
  | Eps
  | One "cls list"
  | NoneOf "cls list"
  | Dot
  | Seq regex regex
  | Alt regex regex
  | Star regex

primrec nullable :: "regex \<Rightarrow> bool" where
  "nullable Never = False"
| "nullable Eps = True"
| "nullable (One cs) = False"
| "nullable (NoneOf cs) = False"
| "nullable Dot = False"
| "nullable (Seq r s) = (nullable r \<and> nullable s)"
| "nullable (Alt r s) = (nullable r \<or> nullable s)"
| "nullable (Star r) = True"

text \<open>The dot matches every character but a line terminator.\<close>

primrec deriv :: "char \<Rightarrow> regex \<Rightarrow> regex" where
  "deriv c Never = Never"
| "deriv c Eps = Never"
| "deriv c (One cs) = (if list_ex (in_cls c) cs then Eps else Never)"
| "deriv c (NoneOf cs) = (if list_ex (in_cls c) cs then Never else Eps)"
| "deriv c Dot = (if c = CHR 0x0A \<or> c = CHR 0x0D then Never else Eps)"
| "deriv c (Seq r s) =
     (if nullable r then Alt (Seq (deriv c r) s) (deriv c s) else Seq (deriv c r) s)"
| "deriv c (Alt r s) = Alt (deriv c r) (deriv c s)"
| "deriv c (Star r) = Seq (deriv c r) (Star r)"

definition matches :: "regex \<Rightarrow> string \<Rightarrow> bool" where
  "matches r s = nullable (foldl (\<lambda>q c. deriv c q) r s)"

text \<open>\<open>/r/.test(s)\<close>: some part of \<open>s\<close> matches \<open>r\<close>.\<close>

definition test :: "regex \<Rightarrow> string \<Rightarrow> bool" where
  "test r s = matches (Seq (Star (NoneOf [])) (Seq r (Star (NoneOf [])))) s"

text \<open>Writing the literals: a string of characters, a sequence, alternatives, one
  or more, white space, a word character.\<close>

definition lit :: "string \<Rightarrow> regex" where
  "lit s = foldr (\<lambda>c r. Seq (One [Chars [c]]) r) s Eps"

definition seqs :: "regex list \<Rightarrow> regex" where
  "seqs rs = foldr Seq rs Eps"

definition alts :: "regex list \<Rightarrow> regex" where
  "alts rs = foldr Alt rs Never"

definition plus :: "regex \<Rightarrow> regex" where
  "plus r = Seq r (Star r)"

definition ws :: regex where
  "ws = One [SpaceClass]"

text \<open>\<open>String.prototype.toLowerCase\<close> on code units below 256: the letters A to Z
  and the capital letters from 0xC0 to 0xDE (without the multiplication sign 0xD7)
  move up by 32.\<close>

definition lower_char :: "char \<Rightarrow> char" where
  "lower_char c =
     (case map_of (zip ''ABCDEFGHIJKLMNOPQRSTUVWXYZ'' ''abcdefghijklmnopqrstuvwxyz'') c of
        Some l \<Rightarrow> l
      | None \<Rightarrow>
          let n = (of_char c :: nat) in
          if 192 \<le> n \<and> n \<le> 222 \<and> n \<noteq> 215 then char_of (n + 32) else c)"

definition toLowerCase :: "string \<Rightarrow> string" where
  "toLowerCase s = map lower_char s"

section \<open>Page Scanner (content script)\<close>

subsection \<open>The page\<close>

text \<open>
  An element as the Scanner reads it: its tag name, the text of its \<open>style\<close>
  attribute (if it has one), the resolved values \<open>display\<close>, \<open>transform\<close> and
  \<open>filter\<close> that \<open>getComputedStyle\<close> gives, and the two highlight markers: the
  class \<open>baseline-highlight\<close> and the attribute \<open>data-baseline-feature\<close>.
\<close>

record element =
  tagName :: string
  style_attr :: "string option"
  computed_display :: string
  computed_transform :: string
  computed_filter :: string
  highlighted :: bool
  data_baseline_feature :: "string option"

text \<open>\<open>customElements\<close>: \<open>null\<close>, an object with no function \<open>getNames\<close> (the call
  throws), or one whose \<open>getNames()\<close> returns that many names.\<close>

datatype custom_elements =
    CE_null
  | CE_no_getNames
  | CE_names nat

text \<open>
  The page: the rule texts of each style sheet (\<open>None\<close> for a sheet whose
  \<open>cssRules\<close> cannot be read), the elements in document order
  (\<open>querySelectorAll('*')\<close>), the texts of the inline scripts, what the other
  selectors of the markup pass find, the capabilities the guards ask for, the
  location and title, whether the document has a \<open>head\<close>, whether the highlight
  style sheet has been injected, and the console. The injected style element has
  \<open>display: none\<close> and no transform; it is counted by its flag and not among the
  elements.
\<close>

record page =
  styleSheets :: "string list option list"
  elements :: "element list"
  inline_scripts :: "string list"
  module_scripts :: nat
  customElements :: custom_elements
  shadowroot_elements :: nat
  inside_shadowroot :: nat
  modernInputs :: nat
  detailsElements :: nat
  pictureElements :: nat
  dialogElements :: nat
  window_has :: "string \<Rightarrow> bool"
  navigator_has :: "string \<Rightarrow> bool"
  promise_has :: "string \<Rightarrow> bool"
  runtime_connected :: bool
  href :: string
  title :: string
  has_head :: bool
  highlight_styles :: bool
  console_p :: "string list"

definition getAllCSSText :: "page \<Rightarrow> string" where
  "getAllCSSText pg =
     concat (map (\<lambda>styleSheet.
                case styleSheet of
                  None \<Rightarrow> []
                | Some cssRules \<Rightarrow> concat (map (\<lambda>rule. rule @ '' '') cssRules))
             (styleSheets pg)) @
     concat (map (\<lambda>el. case style_attr el of None \<Rightarrow> [] | Some s \<Rightarrow> s @ '' '')
             (elements pg))"

definition getAllScriptText :: "page \<Rightarrow> string" where
  "getAllScriptText pg = concat (map (\<lambda>script. script @ '' '') (inline_scripts pg))"

text \<open>A check of a pass: \<open>if (condition) this.addFeature(id, name, type, evidence)\<close>.\<close>

definition detect ::
  "bool \<Rightarrow> string \<Rightarrow> string \<Rightarrow> string \<Rightarrow> string \<Rightarrow> detected list \<Rightarrow> detected list" where
  "detect condition i n t e fs = (if condition then addFeature i n t e fs else fs)"

subsection \<open>The style pass\<close>

definition analyzeStyleSheets :: "page \<Rightarrow> detected list \<Rightarrow> detected list" where
  "analyzeStyleSheets pg fs0 =
     (let cssText = getAllCSSText pg;
          fs1 = detect
            (test (alts [seqs [lit ''display:'', Star ws, lit ''grid''],
                         seqs [lit ''display:'', Star ws, lit ''inline-grid''],
                         lit ''grid-template'', lit ''grid-area'', lit ''grid-column'',
                         lit ''grid-row'']) cssText)
            ''css-grid'' ''CSS Grid Layout'' ''css'' ''Found in stylesheets'' fs0;
          fs2 = detect
            (test (alts [seqs [lit ''display:'', Star ws, lit ''flex''],
                         seqs [lit ''display:'', Star ws, lit ''inline-flex''],
                         lit ''flex-direction'', lit ''flex-wrap'', lit ''justify-content'',
                         lit ''align-items'']) cssText)
            ''flexbox'' ''CSS Flexible Box Layout'' ''css'' ''Found in stylesheets'' fs1;
          fs3 = detect
            (test (alts [lit ''@container'', lit ''container-type'', lit ''container-name''])
               cssText)
            ''css-container-queries'' ''CSS Container Queries'' ''css'' ''Found in stylesheets'' fs2;
          fs4 = detect
            (test (alts [seqs [lit ''grid-template'', Star Dot, lit ''subgrid''],
                         lit ''subgrid'']) cssText)
            ''css-subgrid'' ''CSS Subgrid'' ''css'' ''Found in stylesheets'' fs3;
          fs5 = detect
            (test (lit ''@layer'') cssText)
            ''css-cascade-layers'' ''CSS Cascade Layers'' ''css'' ''Found in stylesheets'' fs4;
          fs6 = detect
            (test (seqs [lit ''aspect-ratio'', Star ws, lit '':'']) cssText)
            ''css-aspect-ratio'' ''CSS aspect-ratio'' ''css'' ''Found in stylesheets'' fs5;
          fs7 = detect
            (test (alts [seqs [lit ''gap'', Star ws, lit '':''],
                         seqs [lit ''column-gap'', Star ws, lit '':''],
                         seqs [lit ''row-gap'', Star ws, lit '':'']]) cssText)
            ''flexbox-gap'' ''CSS Gap'' ''css'' ''Found gap property'' fs6;
          fs8 = detect
            (test (alts [seqs [lit ''transform'', Star ws, lit '':''],
                         lit ''transform3d'', lit ''translateX'', lit ''translateY'',
                         lit ''translateZ'', lit ''rotate'', lit ''scale'', lit ''skew''])
               cssText)
            ''css-transforms'' ''CSS Transforms'' ''css'' ''Found in stylesheets'' fs7;
          fs9 = detect
            (test (alts [lit ''@keyframes'', seqs [lit ''animation'', Star ws, lit '':''],
                         lit ''animation-name'']) cssText)
            ''css-animations'' ''CSS Animations'' ''css'' ''Found animations'' fs8;
          fs10 = detect
            (test (alts [seqs [lit ''transition'', Star ws, lit '':''],
                         lit ''transition-property'', lit ''transition-duration'']) cssText)
            ''css-transitions'' ''CSS Transitions'' ''css'' ''Found transitions'' fs9;
          fs11 = detect
            (test (seqs [lit ''backdrop-filter'', Star ws, lit '':'']) cssText)
            ''css-backdrop-filter'' ''CSS backdrop-filter'' ''css'' ''Found in stylesheets'' fs10;
          fs12 = detect
            (test (alts [seqs [lit ''mask'', Star ws, lit '':''],
                         lit ''mask-image'', lit ''mask-position'']) cssText)
            ''css-masks'' ''CSS Masks'' ''css'' ''Found in stylesheets'' fs11;
          fs13 = detect
            (test (seqs [lit ''clamp'', Star ws, lit ''(''])  cssText)
            ''css-math-functions'' ''CSS Math Functions'' ''css'' ''Found clamp() function'' fs12
      in detect
           (test (alts [lit ''margin-inline'', lit ''padding-inline'', lit ''border-inline'',
                        lit ''margin-block'', lit ''padding-block'']) cssText)
           ''css-logical-props'' ''CSS Logical Properties'' ''css'' ''Found logical properties''
           fs13)"

text \<open>
  \<open>analyzeComputedStyles\<close> looks at \<open>sampleSize\<close> elements, each drawn by
  \<open>elements[Math.floor(Math.random() * elements.length)]\<close>. The draws of one run are
  given by \<open>rnd\<close>: the \<open>i\<close>-th index drawn is \<open>rnd i mod elements.length\<close>, so that
  every index below the length can be drawn and no other.
\<close>

definition inspect_element :: "element \<Rightarrow> detected list \<Rightarrow> detected list" where
  "inspect_element el fs0 =
     (let active = ''Active on '' @ toLowerCase (tagName el);
          fs1 = detect
            (computed_display el = ''grid'' \<or> computed_display el = ''inline-grid'')
            ''css-grid'' ''CSS Grid Layout'' ''css'' active fs0;
          fs2 = detect
            (computed_display el = ''flex'' \<or> computed_display el = ''inline-flex'')
            ''flexbox'' ''CSS Flexible Box Layout'' ''css'' active fs1;
          fs3 = detect
            (computed_transform el \<noteq> [] \<and> computed_transform el \<noteq> ''none'')
            ''css-transforms'' ''CSS Transforms'' ''css'' active fs2
      in detect
           (computed_filter el \<noteq> [] \<and> computed_filter el \<noteq> ''none'')
           ''css-filters'' ''CSS Filters'' ''css'' active fs3)"

definition analyzeComputedStyles :: "(nat \<Rightarrow> nat) \<Rightarrow> page \<Rightarrow> detected list \<Rightarrow> detected list" where
  "analyzeComputedStyles rnd pg fs =
     (let sampleSize = min (length (elements pg)) 50 in
      foldl (\<lambda>acc i. inspect_element (elements pg ! (rnd i mod length (elements pg))) acc)
        fs [0..<sampleSize])"

definition detectCSSCustomProperties :: "page \<Rightarrow> detected list \<Rightarrow> detected list" where
  "detectCSSCustomProperties pg fs0 =
     (let cssText = getAllCSSText pg;
          fs1 = detect
            (test (seqs [lit ''--'', plus (One [WordClass, Chars ''-'']), Star ws, lit '':''])
               cssText)
            ''css-custom-properties'' ''CSS Custom Properties'' ''css''
            ''Found custom property definitions'' fs0
      in detect
           (test (seqs [lit ''var(--'', plus (One [WordClass, Chars ''-'']), lit '')''])
              cssText)
           ''css-custom-properties'' ''CSS Custom Properties'' ''css'' ''Found var() usage''
           fs1)"

definition detectModernCSSFeatures :: "page \<Rightarrow> detected list \<Rightarrow> detected list" where
  "detectModernCSSFeatures pg fs0 =
     (let cssText = getAllCSSText pg;
          fs1 = detect
            (test (seqs [lit '':has'', Star ws, lit ''('']) cssText)
            ''css-has'' ''CSS :has() selector'' ''css'' ''Found :has() selector'' fs0;
          fs2 = detect
            (test (seqs [lit '':is'', Star ws, lit ''('']) cssText)
            ''css-is'' ''CSS :is() selector'' ''css'' ''Found :is() selector'' fs1;
          fs3 = detect
            (test (seqs [lit '':where'', Star ws, lit ''('']) cssText)
            ''css-where'' ''CSS :where() selector'' ''css'' ''Found :where() selector'' fs2
      in detect
           (test (alts [seqs [lit ''&'', Star ws, lit ''{''],
                        seqs [lit ''&'', Star ws, lit '':'']]) cssText)
           ''css-nesting'' ''CSS Nesting'' ''css'' ''Found nesting syntax'' fs3)"

text \<open>Nothing in the four steps throws, so the \<open>catch\<close> of \<open>detectCSSFeatures\<close> is
  never entered.\<close>

definition detectCSSFeatures :: "(nat \<Rightarrow> nat) \<Rightarrow> page \<Rightarrow> detected list \<Rightarrow> detected list" where
  "detectCSSFeatures rnd pg fs =
     detectModernCSSFeatures pg
       (detectCSSCustomProperties pg
          (analyzeComputedStyles rnd pg
             (analyzeStyleSheets pg fs)))"

subsection \<open>The script pass\<close>

definition detectPromiseFeatures :: "page \<Rightarrow> detected list \<Rightarrow> detected list" where
  "detectPromiseFeatures pg fs0 =
     (let scripts = getAllScriptText pg;
          fs1 = detect
            (promise_has pg ''allSettled'' \<and> test (lit ''Promise.allSettled'') scripts)
            ''promise-allsettled'' ''Promise.allSettled()'' ''javascript'' ''Found in scripts'' fs0;
          fs2 = detect
            (promise_has pg ''any'' \<and> test (lit ''Promise.any'') scripts)
            ''promise-any'' ''Promise.any()'' ''javascript'' ''Found in scripts'' fs1
      in detect
           (promise_has pg ''try'' \<and> test (lit ''Promise.try'') scripts)
           ''promise-try'' ''Promise.try()'' ''javascript'' ''Found in scripts'' fs2)"

definition detectModernSyntax :: "page \<Rightarrow> detected list \<Rightarrow> detected list" where
  "detectModernSyntax pg fs0 =
     (let scripts = getAllScriptText pg;
          fs1 = detect
            (test (seqs [lit ''?.'',
                         One [Range CHR ''a'' CHR ''z'', Range CHR ''A'' CHR ''Z'', Chars ''_$'']])
               scripts)
            ''optional-chaining'' ''Optional Chaining'' ''javascript'' ''Found ?. syntax'' fs0;
          fs2 = detect
            (test (lit ''??'') scripts)
            ''nullish-coalescing'' ''Nullish Coalescing'' ''javascript'' ''Found ?? syntax'' fs1;
          fs3 = detect
            (test (alts [seqs [lit ''async'', plus ws, lit ''function''],
                         seqs [lit ''await'', ws]]) scripts)
            ''async-await'' ''Async/Await'' ''javascript'' ''Found async/await syntax'' fs2;
          fs4 = detect
            (test (alts [seqs [lit ''=>'', Star ws, lit ''{''],
                         seqs [lit ''=>'', Star ws, NoneOf [Chars ''{'']]]) scripts)
            ''arrow-functions'' ''Arrow Functions'' ''javascript'' ''Found => syntax'' fs3;
          fs5 = detect
            (test (seqs [lit [CHR 0x60], Star (NoneOf [Chars [CHR 0x60]]), lit [CHR 0x60]])
               scripts)
            ''template-literals'' ''Template Literals'' ''javascript'' ''Found backtick syntax''
            fs4;
          fs6 = detect
            (test (alts [seqs [lit ''{'', Star ws,
                               plus (One [WordClass, Chars '','', SpaceClass]),
                               lit ''}'', Star ws, lit ''=''],
                         seqs [lit ''['', Star ws,
                               plus (One [WordClass, Chars '','', SpaceClass]),
                               lit '']'', Star ws, lit ''='']]) scripts)
            ''destructuring'' ''Destructuring Assignment'' ''javascript''
            ''Found destructuring syntax'' fs5
      in detect
           (test (seqs [lit ''...'', One [WordClass, Chars ''$'']]) scripts)
           ''spread-operator'' ''Spread Operator'' ''javascript'' ''Found ... syntax'' fs6)"

definition detectWebAPIs :: "page \<Rightarrow> detected list \<Rightarrow> detected list" where
  "detectWebAPIs pg fs0 =
     (let scripts = getAllScriptText pg;
          fs1 = detect
            (window_has pg ''fetch'' \<and> test (seqs [lit ''fetch'', Star ws, lit ''('']) scripts)
            ''fetch'' ''Fetch API'' ''web-api'' ''Found fetch() usage'' fs0;
          fs2 = detect
            (window_has pg ''IntersectionObserver'' \<and> test (lit ''IntersectionObserver'') scripts)
            ''intersection-observer'' ''Intersection Observer'' ''web-api'' ''Found usage'' fs1;
          fs3 = detect
            (window_has pg ''ResizeObserver'' \<and> test (lit ''ResizeObserver'') scripts)
            ''resize-observer'' ''Resize Observer'' ''web-api'' ''Found usage'' fs2;
          fs4 = detect
            (window_has pg ''Worker'' \<and> test (seqs [lit ''new'', plus ws, lit ''Worker'']) scripts)
            ''web-workers'' ''Web Workers'' ''web-api'' ''Found Worker usage'' fs3;
          fs5 = detect
            (navigator_has pg ''serviceWorker'' \<and> test (lit ''serviceWorker'') scripts)
            ''service-workers'' ''Service Workers'' ''web-api'' ''Found serviceWorker usage'' fs4;
          fs6 = detect
            (window_has pg ''PaymentRequest'' \<and> test (lit ''PaymentRequest'') scripts)
            ''payment-request'' ''Payment Request API'' ''web-api'' ''Found usage'' fs5;
          fs7 = detect
            (navigator_has pg ''share'' \<and> test (lit ''navigator.share'') scripts)
            ''web-share'' ''Web Share API'' ''web-api'' ''Found navigator.share usage'' fs6;
          fs8 = detect
            (navigator_has pg ''clipboard'' \<and> test (lit ''navigator.clipboard'') scripts)
            ''clipboard-api'' ''Clipboard API'' ''web-api'' ''Found clipboard usage'' fs7
      in detect
           (navigator_has pg ''geolocation'' \<and> test (lit ''navigator.geolocation'') scripts)
           ''geolocation'' ''Geolocation API'' ''web-api'' ''Found geolocation usage'' fs8)"

definition detectESModules :: "page \<Rightarrow> detected list \<Rightarrow> detected list" where
  "detectESModules pg fs0 =
     (let fs1 = detect (module_scripts pg > 0)
            ''es-modules'' ''ES Modules'' ''javascript''
            (''Found '' @ toString (module_scripts pg) @ '' module script(s)'') fs0;
          scripts = getAllScriptText pg
      in detect
           (test (seqs [lit ''import'', Star ws, lit ''('']) scripts)
           ''dynamic-import'' ''Dynamic Import'' ''javascript'' ''Found import() usage'' fs1)"

text \<open>Nothing in the four steps throws here either.\<close>

definition detectJavaScriptFeatures :: "page \<Rightarrow> detected list \<Rightarrow> detected list" where
  "detectJavaScriptFeatures pg fs =
     detectESModules pg (detectWebAPIs pg (detectModernSyntax pg (detectPromiseFeatures pg fs)))"

subsection \<open>The markup pass\<close>

datatype js_error = TypeError

text \<open>\<open>customElements && customElements.getNames().length > 0\<close>: with a non-null
  \<open>customElements\<close> that has no \<open>getNames\<close> the call throws, and
  \<open>detectHTMLFeatures\<close> has no \<open>try\<close>.\<close>

definition detectHTMLFeatures :: "page \<Rightarrow> detected list \<Rightarrow> js_error + detected list" where
  "detectHTMLFeatures pg fs0 =
     (case customElements pg of
        CE_no_getNames \<Rightarrow> Inl TypeError
      | ce \<Rightarrow>
          let fs1 = detect (case ce of CE_names n \<Rightarrow> n > 0 | _ \<Rightarrow> False)
                ''custom-elements'' ''Custom Elements'' ''html''
                ''Found registered custom elements'' fs0;
              fs2 = detect (shadowroot_elements pg > 0 \<or> inside_shadowroot pg \<noteq> 0)
                ''shadow-dom'' ''Shadow DOM'' ''html'' ''Found shadow DOM usage'' fs1;
              fs3 = detect (modernInputs pg > 0)
                ''html5-forms'' ''HTML5 Form Controls'' ''html''
                (''Found '' @ toString (modernInputs pg) @ '' modern input types'') fs2;
              fs4 = detect (detailsElements pg > 0)
                ''details-summary'' ''Details/Summary Elements'' ''html''
                (''Found '' @ toString (detailsElements pg) @ '' details elements'') fs3;
              fs5 = detect (pictureElements pg > 0)
                ''picture-element'' ''Picture Element'' ''html''
                (''Found '' @ toString (pictureElements pg) @ '' picture elements'') fs4
          in Inr (detect (dialogElements pg > 0)
                ''dialog-element'' ''Dialog Element'' ''html''
                (''Found '' @ toString (dialogElements pg) @ '' dialog elements'') fs5))"

subsection \<open>The full pass\<close>

record scan_message =
  features_sm :: "detected list"
  url_sm :: string
  title_sm :: string

text \<open>The Scanner: its feature set, and the \<open>FEATURES_DETECTED\<close> messages it has
  handed to \<open>chrome.runtime.sendMessage\<close>.\<close>

record scanner =
  detectedFeatures :: "detected list"
  sent :: "scan_message list"

text \<open>\<open>sendMessage\<close> throws when the extension's runtime is gone; the \<open>catch\<close>
  logs and goes on.\<close>

definition sendResultsToBackground :: "page \<Rightarrow> scanner \<Rightarrow> scanner" where
  "sendResultsToBackground pg sc =
     (if runtime_connected pg then
        sc\<lparr>sent := sent sc @
          [\<lparr>features_sm = detectedFeatures sc, url_sm = href pg, title_sm = title pg\<rparr>]\<rparr>
      else sc)"

text \<open>\<open>analyzeDocument\<close> clears the set and runs the three passes; an exception of
  the markup pass leaves the set as the first two passes built it and nothing is
  sent. The result is the Scanner afterwards and the exception, if any.\<close>

definition analyzeDocument :: "(nat \<Rightarrow> nat) \<Rightarrow> page \<Rightarrow> scanner \<Rightarrow> scanner \<times> js_error option" where
  "analyzeDocument rnd pg sc =
     (let fs = detectJavaScriptFeatures pg (detectCSSFeatures rnd pg []) in
      case detectHTMLFeatures pg fs of
        Inl err \<Rightarrow> (sc\<lparr>detectedFeatures := fs\<rparr>, Some err)
      | Inr fs' \<Rightarrow> (sendResultsToBackground pg (sc\<lparr>detectedFeatures := fs'\<rparr>), None))"

text \<open>The ids of the set after a run on the Scanner \<open>sc\<close>.\<close>

definition ids_after :: "(nat \<Rightarrow> nat) \<Rightarrow> page \<Rightarrow> scanner \<Rightarrow> string set" where
  "ids_after rnd pg sc = id_f ` set (detectedFeatures (fst (analyzeDocument rnd pg sc)))"

subsection \<open>Highlighting\<close>

text \<open>The loop that removes the existing highlights: every element with the class
  loses the class and the attribute.\<close>

definition remove_highlight :: "element \<Rightarrow> element" where
  "remove_highlight el =
     (if highlighted el then el\<lparr>highlighted := False, data_baseline_feature := None\<rparr> else el)"

definition removeExistingHighlights :: "page \<Rightarrow> page" where
  "removeExistingHighlights pg = pg\<lparr>elements := map remove_highlight (elements pg)\<rparr>"

definition mark :: "string \<Rightarrow> element \<Rightarrow> element" where
  "mark label el = el\<lparr>highlighted := True, data_baseline_feature := Some label\<rparr>"

definition is_grid :: "element \<Rightarrow> bool" where
  "is_grid el \<longleftrightarrow> computed_display el = ''grid'' \<or> computed_display el = ''inline-grid''"

definition is_flex :: "element \<Rightarrow> bool" where
  "is_flex el \<longleftrightarrow> computed_display el = ''flex'' \<or> computed_display el = ''inline-flex''"

definition is_transformed :: "element \<Rightarrow> bool" where
  "is_transformed el \<longleftrightarrow> computed_transform el \<noteq> [] \<and> computed_transform el \<noteq> ''none''"

definition highlightSpecificFeature :: "string \<Rightarrow> page \<Rightarrow> page" where
  "highlightSpecificFeature featureId pg =
     (if featureId = ''css-grid'' then
        pg\<lparr>elements := map (\<lambda>el. if is_grid el then mark ''CSS Grid'' el else el) (elements pg)\<rparr>
      else if featureId = ''flexbox'' then
        pg\<lparr>elements := map (\<lambda>el. if is_flex el then mark ''Flexbox'' el else el) (elements pg)\<rparr>
      else if featureId = ''css-transforms'' then
        pg\<lparr>elements :=
             map (\<lambda>el. if is_transformed el then mark ''CSS Transform'' el else el) (elements pg)\<rparr>
      else
        pg\<lparr>console_p := console_p pg @
             [''Highlighting not implemented for feature: '' @ featureId]\<rparr>)"

text \<open>\<open>highlightFeatureUsage\<close>: remove the existing highlights, inject the style
  sheet unless it is there (\<open>document.head.appendChild\<close> throws when the document
  has no \<open>head\<close>), then highlight. The result is the page afterwards and the
  exception, if any.\<close>

definition highlightFeatureUsage :: "string \<Rightarrow> page \<Rightarrow> page \<times> js_error option" where
  "highlightFeatureUsage featureId pg =
     (let pg1 = removeExistingHighlights pg in
      if \<not> highlight_styles pg1 \<and> \<not> has_head pg1 then (pg1, Some TypeError)
      else (highlightSpecificFeature featureId (pg1\<lparr>highlight_styles := True\<rparr>), None))"

text \<open>The ids that the computed-style sample can add.\<close>

definition sampled_ids :: "string set" where
  "sampled_ids = set [''css-grid'', ''flexbox'', ''css-transforms'', ''css-filters'']"

text \<open>The ids for which \<open>highlightSpecificFeature\<close> has a case.\<close>

definition highlightable :: "string \<Rightarrow> bool" where
  "highlightable featureId \<longleftrightarrow> featureId \<in> set [''css-grid'', ''flexbox'', ''css-transforms'']"

definition new_scanner :: scanner where
  "new_scanner = \<lparr>detectedFeatures = [], sent = []\<rparr>"

definition plain_element :: "string \<Rightarrow> element" where
  "plain_element tag =
     \<lparr>tagName = tag, style_attr = None, computed_display = ''block'',
      computed_transform = ''none'', computed_filter = ''none'', highlighted = False,
      data_baseline_feature = None\<rparr>"

text \<open>A page whose only style sheet is cross-origin and gives one \<open>div\<close> a filter:
  no style text and no script text can be read.\<close>

definition filter_page :: page where
  "filter_page =
     \<lparr>styleSheets = [None],
      elements = [plain_element ''HTML'', plain_element ''HEAD'',
                  (plain_element ''LINK'')\<lparr>computed_display := ''none''\<rparr>,
                  plain_element ''BODY'',
                  (plain_element ''DIV'')\<lparr>computed_filter := ''blur(5px)''\<rparr>],
      inline_scripts = [], module_scripts = 0, customElements = CE_null,
      shadowroot_elements = 0, inside_shadowroot = 0, modernInputs = 0, detailsElements = 0,
      pictureElements = 0, dialogElements = 0,
      window_has = (\<lambda>s. True), navigator_has = (\<lambda>s. True), promise_has = (\<lambda>s. True),
      runtime_connected = True, href = ''https://example.org/'', title = ''Example'',
      has_head = True, highlight_styles = False, console_p = []\<rparr>"

text \<open>A page with a grid container and a flex container.\<close>

definition grid_page :: page where
  "grid_page =
     filter_page\<lparr>elements :=
       [plain_element ''HTML'', plain_element ''BODY'',
        (plain_element ''MAIN'')\<lparr>computed_display := ''grid''\<rparr>,
        (plain_element ''NAV'')\<lparr>computed_display := ''flex''\<rparr>]\<rparr>"

text \<open>The same page in a document that has no \<open>head\<close>.\<close>

definition headless_page :: page where
  "headless_page = grid_page\<lparr>has_head := False\<rparr>"

text \<open>A page with one inline style and one inline script.\<close>

definition inline_page :: page where
  "inline_page =
     filter_page\<lparr>styleSheets := [],
       elements :=
         [plain_element ''HTML'', plain_element ''BODY'',
          (plain_element ''MAIN'')\<lparr>style_attr := Some ''display: grid;''\<rparr>],
       inline_scripts := [''a?.b ?? c'']\<rparr>"

text \<open>Two feature sets have the same ids outside a set \<open>X\<close> of ids.\<close>

definition agree_outside :: "string set \<Rightarrow> detected list \<Rightarrow> detected list \<Rightarrow> bool" where
  "agree_outside X fs gs \<longleftrightarrow> id_f ` set fs - X = id_f ` set gs - X"

text \<open>The set after a run does not depend on the Scanner it starts from.\<close>

definition features_after :: "(nat \<Rightarrow> nat) \<Rightarrow> page \<Rightarrow> detected list" where
  "features_after rnd pg =
     (let fs = detectJavaScriptFeatures pg (detectCSSFeatures rnd pg []) in
      case detectHTMLFeatures pg fs of Inl err \<Rightarrow> fs | Inr fs' \<Rightarrow> fs')"

text \<open>Three sequences of draws: always the first element, always the fifth, and
  draws that fall on the fifth of five elements.\<close>

definition draw_first :: "nat \<Rightarrow> nat" where
  "draw_first i = 0"

definition draw_fifth :: "nat \<Rightarrow> nat" where
  "draw_fifth i = 4"

definition draw_tenth :: "nat \<Rightarrow> nat" where
  "draw_tenth i = 9"

section \<open>Coordinator (background.js)\<close>

text \<open>
  The \<open>baseline\<close> object of a feature as the catalog describes it: \<open>status\<close>,
  \<open>low_date\<close> and \<open>high_date\<close>, each of which may be missing. A feature the
  Coordinator receives is read only through \<open>f.baseline?.status\<close>.
\<close>

record baseline =
  status :: "string option"
  low_date :: "string option"
  high_date :: "string option"

record reported =
  baseline_r :: "baseline option"

text \<open>\<open>f.baseline?.status\<close>: undefined when \<open>baseline\<close> is missing.\<close>

definition baseline_status :: "baseline option \<Rightarrow> string option" where
  "baseline_status b = (case b of None \<Rightarrow> None | Some x \<Rightarrow> status x)"

definition is_limited :: "reported \<Rightarrow> bool" where
  "is_limited f \<longleftrightarrow> baseline_status (baseline_r f) = Some ''limited''"

text \<open>The calls to \<open>chrome.action\<close>, in the order they are made; each carries the
  \<open>tabId\<close> it was given (\<open>sender.tab?.id\<close>, which may be undefined).\<close>

datatype action_call =
    SetBadgeText string "int option"
  | SetBadgeBackgroundColor string "int option"

text \<open>\<open>!tabId\<close> holds for an undefined tab id and for \<open>0\<close>.\<close>

definition truthy_tab :: "int option \<Rightarrow> bool" where
  "truthy_tab tabId \<longleftrightarrow> (case tabId of None \<Rightarrow> False | Some t \<Rightarrow> t \<noteq> 0)"

text \<open>\<open>updateBadge(tabId, features)\<close>; \<open>features\<close> is \<open>None\<close> when the message
  has no feature list (\<open>!features\<close>).\<close>

definition updateBadge :: "int option \<Rightarrow> reported list option \<Rightarrow> action_call list" where
  "updateBadge tabId features =
     (case features of
        None \<Rightarrow> [SetBadgeText [] tabId]
      | Some fs \<Rightarrow>
          if \<not> truthy_tab tabId \<or> length fs = 0 then [SetBadgeText [] tabId]
          else
            let limitedFeatures = filter is_limited fs in
            if length limitedFeatures > 0 then
              [SetBadgeText (toString (length limitedFeatures)) tabId,
               SetBadgeBackgroundColor ''#dc3545'' tabId]
            else
              let count = min (length fs) 99 in
              [SetBadgeText (toString count) tabId,
               SetBadgeBackgroundColor ''#28a745'' tabId])"

text \<open>
  The session store \<open>chrome.storage.session\<close> holds two kinds of entries: the
  string under \<open>pendingSearch\<close> and one snapshot per tab under \<open>features_<tabId>\<close>.
  A write or removal is modelled as taking effect; the source catches a rejected
  one and goes on.
\<close>

record snapshot =
  features_s :: "reported list option"
  url_s :: string
  title_s :: string
  timestamp_s :: nat

record session =
  pendingSearch :: "string option"
  features_tab :: "int \<Rightarrow> snapshot option"

record coordinator =
  badge_calls :: "action_call list"
  store :: session
  context_menus :: "string list"



definition onRemoved :: "int \<Rightarrow> coordinator \<Rightarrow> coordinator" where
  "onRemoved tabId c =
     c\<lparr>store := (store c)\<lparr>features_tab := (features_tab (store c))(tabId := None)\<rparr>\<rparr>"

record click_info =
  menuItemId :: string
  selectionText :: "string option"

text \<open>The context-menu listener stores the trimmed selection as the pending
  search; an undefined or empty \<open>selectionText\<close> is falsy.\<close>

definition onClicked :: "click_info \<Rightarrow> coordinator \<Rightarrow> coordinator" where
  "onClicked info c =
     (case selectionText info of
        None \<Rightarrow> c
      | Some sel \<Rightarrow>
          if menuItemId info = ''checkBaseline'' \<and> sel \<noteq> [] then
            c\<lparr>store := (store c)\<lparr>pendingSearch := Some (trim sel)\<rparr>\<rparr>
          else c)"

definition onInstalled :: "coordinator \<Rightarrow> coordinator" where
  "onInstalled c = c\<lparr>context_menus := context_menus c @ [''checkBaseline'']\<rparr>"

definition limited_feature :: reported where
  "limited_feature =
     \<lparr>baseline_r = Some \<lparr>status = Some ''limited'', low_date = None, high_date = None\<rparr>\<rparr>"

definition widely_feature :: reported where
  "widely_feature =
     \<lparr>baseline_r = Some \<lparr>status = Some ''widely'', low_date = None, high_date = None\<rparr>\<rparr>"

definition newly_feature :: reported where
  "newly_feature =
     \<lparr>baseline_r = Some \<lparr>status = Some ''newly'', low_date = None, high_date = None\<rparr>\<rparr>"






section \<open>Lookup Panel (popup.js)\<close>

subsection \<open>Catalog features and their cards\<close>

text \<open>
  A feature of the remote catalog: \<open>feature_id\<close>, \<open>name\<close>, \<open>baseline\<close> and
  \<open>spec.links\<close>, each of which may be missing (\<open>spec_links\<close> is \<open>None\<close> when
  \<open>feature.spec?.links\<close> is undefined).
\<close>

record catalog_feature =
  feature_id :: "string option"
  name_c :: "string option"
  baseline_c :: "baseline option"
  spec_links :: "string list option"

text \<open>\<open>x || d\<close> on a string that may be missing: undefined and the empty string
  are falsy.\<close>

definition or_default :: "string option \<Rightarrow> string \<Rightarrow> string" where
  "or_default x d = (case x of None \<Rightarrow> d | Some s \<Rightarrow> if s = [] then d else s)"

text \<open>The two functions of the browser that \<open>createFeatureCard\<close> calls:
  \<open>new Date(s).toLocaleDateString('en-US', ...)\<close> and \<open>new URL(s).hostname\<close>, which
  throws (\<open>None\<close>) on a string that is not a URL.\<close>

record platform =
  toLocaleDateString :: "string \<Rightarrow> string"
  url_hostname :: "string \<Rightarrow> string option"

text \<open>
  The markup that the panel writes: the characters of a string as they are, with
  nothing escaped, and the characters of the templates that lie above the code
  units below 256 (the pictographs), given by their code points. A template is
  written line by line; \<open>fixed\<close> joins its lines with line feeds.
\<close>

datatype hchar =
    C char
  | Wide nat

type_synonym html = "hchar list"

definition raw :: "string \<Rightarrow> html" where
  "raw s = map C s"

definition join_lines :: "string list \<Rightarrow> string" where
  "join_lines ls =
     (case ls of [] \<Rightarrow> [] | l # rest \<Rightarrow> l @ concat (map (\<lambda>x. CHR 0x0A # x) rest))"

definition fixed :: "string list \<Rightarrow> html" where
  "fixed ls = raw (join_lines ls)"

text \<open>
  \<open>${table[key]}\<close> for an object literal \<open>table\<close>: the own entry for the key if
  there is one; otherwise the property that the object inherits from
  \<open>Object.prototype\<close>, a built-in function, printed as its source text, or the
  prototype itself under \<open>__proto__\<close>; otherwise \<open>undefined\<close>.
\<close>

definition inherited_functions :: "string list" where
  "inherited_functions =
     [''constructor'', ''hasOwnProperty'', ''isPrototypeOf'', ''propertyIsEnumerable'',
      ''toLocaleString'', ''toString'', ''valueOf'', ''__defineGetter__'',
      ''__defineSetter__'', ''__lookupGetter__'', ''__lookupSetter__'']"

definition interpolate_lookup :: "(string \<times> string) list \<Rightarrow> string \<Rightarrow> string" where
  "interpolate_lookup table key =
     (case map_of table key of
        Some v \<Rightarrow> v
      | None \<Rightarrow>
          if key \<in> set inherited_functions then ''function '' @ key @ ''() { [native code] }''
          else if key = ''__proto__'' then ''[object Object]''
          else ''undefined'')"

definition statusLabels :: "(string \<times> string) list" where
  "statusLabels =
     [(''widely'', ''Widely Available''),
      (''newly'', ''Newly Available''),
      (''limited'', ''Limited Support'')]"

definition descriptions :: "(string \<times> string) list" where
  "descriptions =
     [(''widely'', ''Safe to use across all modern browsers''),
      (''newly'', ''Available in latest browsers, consider polyfills''),
      (''limited'', ''Limited browser support - use with caution'')]"

text \<open>The template literal that \<open>createFeatureCard\<close> returns, with its holes: the
  name, the id, the class and the label of the status badge, the description, and
  the markup of the two date lines and of the link line (empty when left out).\<close>

definition card_template ::
  "string \<Rightarrow> string \<Rightarrow> string \<Rightarrow> string \<Rightarrow> string \<Rightarrow> html \<Rightarrow> html \<Rightarrow> html \<Rightarrow> html" where
  \<open>card_template name fid statusClass label description newly widely links =
     fixed ['''',
            ''      <div class="feature-card">'',
            ''        <div class="feature-header">'',
            ''          <div style="flex: 1;">'',
            ''            <h3 class="feature-name">''] @
     raw name @
     fixed [''</h3>'',
            ''            <div class="feature-id">''] @
     raw fid @
     fixed [''</div>'',
            ''            <div class="status-badge ''] @
     raw statusClass @
     fixed [''">'',
            ''              ''] @
     raw label @
     fixed ['''',
            ''            </div>'',
            ''          </div>'',
            ''        </div>'',
            ''        '',
            ''        <div style="margin-top: 12px; font-size: 12px; color: #6c757d;">'',
            ''          ''] @
     raw description @
     fixed ['''',
            ''        </div>'',
            ''        '',
            ''        ''] @
     newly @
     fixed ['''',
            ''        '',
            ''        ''] @
     widely @
     fixed ['''',
            ''        '',
            ''        ''] @
     links @
     fixed ['''',
            ''      </div>'',
            ''    '']\<close>

text \<open>\<open>feature.baseline?.low_date ? `...${formatDate(feature.baseline.low_date)}...` : ''\<close>,
  and the same for \<open>high_date\<close>; \<open>formatDate\<close> is \<open>toLocaleDateString\<close> on a date
  string that is not empty.\<close>

definition baseline_low_date :: "baseline option \<Rightarrow> string option" where
  "baseline_low_date b = (case b of None \<Rightarrow> None | Some x \<Rightarrow> low_date x)"

definition baseline_high_date :: "baseline option \<Rightarrow> string option" where
  "baseline_high_date b = (case b of None \<Rightarrow> None | Some x \<Rightarrow> high_date x)"

definition newly_block :: "platform \<Rightarrow> baseline option \<Rightarrow> html" where
  \<open>newly_block pf b =
     (case baseline_low_date b of
        None \<Rightarrow> []
      | Some d \<Rightarrow>
          if d = [] then []
          else
          fixed ['''',
                 ''          <div style="margin-top: 8px; font-size: 11px; color: #6c757d;">'',
                 ''            ''] @
          [Wide 0x1F4C5] @
          raw '' Baseline Newly: '' @
          raw (toLocaleDateString pf d) @
          fixed ['''',
                 ''          </div>'',
                 ''        ''])\<close>

definition widely_block :: "platform \<Rightarrow> baseline option \<Rightarrow> html" where
  \<open>widely_block pf b =
     (case baseline_high_date b of
        None \<Rightarrow> []
      | Some d \<Rightarrow>
          if d = [] then []
          else
          fixed ['''',
                 ''          <div style="margin-top: 4px; font-size: 11px; color: #6c757d;">'',
                 ''            ''] @
          [Wide 0x1F4C5] @
          raw '' Baseline Widely: '' @
          raw (toLocaleDateString pf d) @
          fixed ['''',
                 ''          </div>'',
                 ''        ''])\<close>

text \<open>\<open>feature.spec?.links?.slice(0, 2).map(...).filter(Boolean).join(' ')\<close>: a
  link whose URL does not parse gives the empty string and is filtered out; the
  result is \<open>None\<close> (undefined) when there are no links to look at.\<close>

definition link_markup :: "string \<Rightarrow> string \<Rightarrow> html" where
  \<open>link_markup link hostname =
     raw ''<a href="'' @
     raw link @
     raw ''" target="_blank" style="color: #667eea; text-decoration: none; font-size: 11px;">'' @
     [Wide 0x1F4CB] @
     raw '' '' @
     raw hostname @
     raw ''</a>''\<close>

fun join_html :: "html \<Rightarrow> html list \<Rightarrow> html" where
  "join_html sep [] = []"
| "join_html sep [x] = x"
| "join_html sep (x # y # ys) = x @ sep @ join_html sep (y # ys)"

definition specLinks_markup :: "platform \<Rightarrow> string list option \<Rightarrow> html option" where
  "specLinks_markup pf links =
     (case links of
        None \<Rightarrow> None
      | Some ls \<Rightarrow>
          Some (join_html (raw '' '')
            (List.map_filter
               (\<lambda>link. case url_hostname pf link of
                          None \<Rightarrow> None
                        | Some hostname \<Rightarrow> Some (link_markup link hostname))
               (take 2 ls))))"

definition links_block :: "platform \<Rightarrow> string list option \<Rightarrow> html" where
  \<open>links_block pf links =
     (case specLinks_markup pf links of
        None \<Rightarrow> []
      | Some specLinks \<Rightarrow>
          if specLinks = [] then []
          else
          fixed ['''',
                 ''          <div style="margin-top: 8px;">'',
                 ''            ''] @
          specLinks @
          fixed ['''',
                 ''          </div>'',
                 ''        ''])\<close>

definition createFeatureCard :: "platform \<Rightarrow> catalog_feature \<Rightarrow> html" where
  "createFeatureCard pf feature =
     (let status = or_default (baseline_status (baseline_c feature)) ''limited'' in
      card_template
        (or_default (name_c feature) ''Unknown Feature'')
        (or_default (feature_id feature) ''unknown'')
        (''status-'' @ status)
        (interpolate_lookup statusLabels status)
        (interpolate_lookup descriptions status)
        (newly_block pf (baseline_c feature))
        (widely_block pf (baseline_c feature))
        (links_block pf (spec_links feature)))"

text \<open>The number of places in a markup where the opening tag of a card stands.\<close>

definition card_tag :: html where
  \<open>card_tag = raw ''<div class="feature-card">''\<close>

fun occurrences :: "html \<Rightarrow> html \<Rightarrow> nat" where
  "occurrences pat [] = 0"
| "occurrences pat (x # xs) =
     (if take (length pat) (x # xs) = pat then 1 else 0) + occurrences pat xs"

definition count_cards :: "html \<Rightarrow> nat" where
  "count_cards h = occurrences card_tag h"

text \<open>A markup in which no end that is shorter than the pattern begins the pattern:
  what follows it cannot complete an occurrence.\<close>

fun settled :: "html \<Rightarrow> html \<Rightarrow> bool" where
  "settled pat [] = True"
| "settled pat (x # xs) =
     ((length pat \<le> length (x # xs) \<or> take (length (x # xs)) pat \<noteq> x # xs) \<and> settled pat xs)"

text \<open>A markup that adds no card opening tag to what follows it.\<close>

definition inert :: "html \<Rightarrow> bool" where
  "inert h \<longleftrightarrow> (\<forall>z. occurrences card_tag (h @ z) = occurrences card_tag z)"

text \<open>A string without the characters that markup is made of, and a catalog feature
  whose strings in the card (with the date and host texts made from them) are such
  strings.\<close>

definition plain :: "string \<Rightarrow> bool" where
  \<open>plain s \<longleftrightarrow> set s \<inter> set (''<>&"'' @ [CHR 0x27]) = {}\<close>

definition markup_free :: "platform \<Rightarrow> catalog_feature \<Rightarrow> bool" where
  "markup_free pf f \<longleftrightarrow>
     plain (or_default (name_c f) []) \<and>
     plain (or_default (feature_id f) []) \<and>
     plain (or_default (baseline_status (baseline_c f)) []) \<and>
     (case baseline_low_date (baseline_c f) of
        None \<Rightarrow> True | Some d \<Rightarrow> plain (toLocaleDateString pf d)) \<and>
     (case baseline_high_date (baseline_c f) of
        None \<Rightarrow> True | Some d \<Rightarrow> plain (toLocaleDateString pf d)) \<and>
     (case spec_links f of
        None \<Rightarrow> True
      | Some ls \<Rightarrow>
          list_all
            (\<lambda>link. plain link \<and>
               (case url_hostname pf link of None \<Rightarrow> True | Some hostname \<Rightarrow> plain hostname))
            (take 2 ls))"

subsection \<open>The panel and its requests\<close>

text \<open>The content of the \<open>results\<close> element: the markup assigned to its
  \<open>innerHTML\<close>, which the browser parses, the appended ``showing'' message, the
  error box.\<close>

datatype results_node =
    Markup html
  | MoreMessage string
  | ErrorBox string

text \<open>The content of \<open>detectedCount\<close> that \<open>displayDetectedFeatures\<close> writes: the
  number of unique features, the labels of the first three, and the number of the
  others when there are more than three.\<close>

record detected_summary =
  unique_count :: nat
  shown_labels :: "string list"
  more_count :: "nat option"

text \<open>
  A call into the browser that the panel makes, and what the call leaves waiting: the
  rest of an \<open>async\<close> function after its \<open>await\<close>, or a callback. The rest of
  \<open>searchFeatures\<close> keeps its argument \<open>isUserSearch\<close>. The two awaits of
  \<open>searchFeatures\<close> (\<open>fetch\<close>, then \<open>response.json()\<close>) are one request: nothing
  of the panel changes between them.
\<close>

datatype request =
    StorageGet string
  | StorageRemove string
  | TabsQuery
  | TabsSendMessage int string
  | Fetch string

datatype continuation =
    After_storage_get
  | After_tabs_query
  | After_sendMessage
  | After_fetch bool

datatype body =
    BodyInvalid
  | BodyData "catalog_feature list option"

text \<open>How a request ends: \<open>Rejected\<close> is a rejected promise (for \<open>sendMessage\<close>,
  \<open>chrome.runtime.lastError\<close> set); \<open>StorageItems v\<close> gives \<open>result.pendingSearch\<close>;
  \<open>Tabs\<close> the ids of the tabs found; \<open>Response\<close> the \<open>features\<close> of the Scanner's
  answer, if any; \<open>HttpResponse ok body\<close> the \<open>ok\<close> flag and the parsed body with its
  \<open>data\<close> field.\<close>

datatype settlement =
    Rejected
  | StorageItems "string option"
  | Tabs "int list"
  | Response "detected list option"
  | HttpResponse bool body

text \<open>
  The panel: the state of its elements, whether \<open>init\<close> has installed the two
  listeners, the requests issued so far in order, and the continuations that wait,
  each under the position of its request. The search field is a string property.
\<close>

record popup =
  searchInput_value :: string
  results_display :: string
  results_children :: "results_node list"
  loadingState_display :: string
  noResults_display :: string
  detectedFeatures_display :: string
  detectedCount :: "detected_summary option"
  listeners :: bool
  requests :: "request list"
  pending :: "(nat \<times> continuation) list"
  console :: "string list"

definition issue :: "request \<Rightarrow> continuation \<Rightarrow> popup \<Rightarrow> popup" where
  "issue r k p = p\<lparr>requests := requests p @ [r], pending := pending p @ [(length (requests p), k)]\<rparr>"

definition issue_only :: "request \<Rightarrow> popup \<Rightarrow> popup" where
  "issue_only r p = p\<lparr>requests := requests p @ [r]\<rparr>"

definition log :: "string \<Rightarrow> popup \<Rightarrow> popup" where
  "log s p = p\<lparr>console := console p @ [s]\<rparr>"

subsection \<open>\<open>encodeURIComponent\<close>\<close>

definition unreserved :: "char list" where
  "unreserved =
     ''ABCDEFGHIJKLMNOPQRSTUVWXYZabcdefghijklmnopqrstuvwxyz0123456789-_.!~*()'' @ [CHR 0x27]"

definition hex2 :: "nat \<Rightarrow> string" where
  "hex2 n = [''0123456789ABCDEF'' ! (n div 16), ''0123456789ABCDEF'' ! (n mod 16)]"

text \<open>A code unit below 128 is one UTF-8 byte, one from 128 to 255 is two.\<close>

definition encode_unit :: "char \<Rightarrow> string" where
  "encode_unit c =
     (let n = (of_char c :: nat) in
      if c \<in> set unreserved then [c]
      else if n < 128 then CHR ''%'' # hex2 n
      else (CHR ''%'' # hex2 (192 + n div 64)) @ (CHR ''%'' # hex2 (128 + n mod 64)))"

definition encodeURIComponent :: "string \<Rightarrow> string" where
  "encodeURIComponent s = concat (map encode_unit s)"

definition search_url :: "string \<Rightarrow> string" where
  "search_url query = ''https://api.webstatus.dev/v1/features?q='' @ encodeURIComponent query"

subsection \<open>The methods of \<open>BaselinePopup\<close>\<close>

definition showLoading :: "popup \<Rightarrow> popup" where
  "showLoading p =
     p\<lparr>loadingState_display := ''block'', results_display := ''none'',
       noResults_display := ''none''\<rparr>"

definition hideLoading :: "popup \<Rightarrow> popup" where
  "hideLoading p = p\<lparr>loadingState_display := ''none''\<rparr>"

definition showNoResults :: "popup \<Rightarrow> popup" where
  "showNoResults p = p\<lparr>results_display := ''none'', noResults_display := ''block''\<rparr>"

definition showError :: "string \<Rightarrow> popup \<Rightarrow> popup" where
  "showError msg p =
     p\<lparr>results_children := [ErrorBox msg], results_display := ''block'',
       noResults_display := ''none''\<rparr>"

definition displayResults :: "platform \<Rightarrow> catalog_feature list \<Rightarrow> bool \<Rightarrow> popup \<Rightarrow> popup" where
  "displayResults pf features isUserSearch p =
     (if length features = 0 then showNoResults p
      else
        let limitedFeatures = take 8 features;
            markup = concat (map (\<lambda>feature. createFeatureCard pf feature) limitedFeatures);
            p1 = p\<lparr>results_display := ''block'', noResults_display := ''none'',
                   results_children := [Markup markup]\<rparr>
        in
        if length features > 8 then
          p1\<lparr>results_children := results_children p1 @
               [MoreMessage (''Showing '' @ toString (length limitedFeatures) @ '' of '' @
                  toString (length features) @ '' results'')]\<rparr>
        else p1)"

text \<open>\<open>searchFeatures\<close> up to its \<open>await fetch(...)\<close>, and from there on.\<close>

definition searchFeatures :: "string \<Rightarrow> bool \<Rightarrow> popup \<Rightarrow> popup" where
  "searchFeatures query isUserSearch p =
     issue (Fetch (search_url query)) (After_fetch isUserSearch) (showLoading p)"

definition searchFeatures_resume :: "platform \<Rightarrow> bool \<Rightarrow> settlement \<Rightarrow> popup \<Rightarrow> popup" where
  "searchFeatures_resume pf isUserSearch r p =
     (case r of
        HttpResponse ok b \<Rightarrow>
          (if \<not> ok then
             hideLoading (showError ''Failed to search features. Please try again.''
               (log ''Search error:'' p))
           else
             (case b of
                BodyInvalid \<Rightarrow>
                  hideLoading (showError ''Failed to search features. Please try again.''
                    (log ''Search error:'' p))
              | BodyData d \<Rightarrow>
                  hideLoading
                    (displayResults pf (case d of None \<Rightarrow> [] | Some fs \<Rightarrow> fs) isUserSearch p)))
      | _ \<Rightarrow>
          hideLoading (showError ''Failed to search features. Please try again.''
            (log ''Search error:'' p)))"

definition handleSearch :: "popup \<Rightarrow> popup" where
  "handleSearch p =
     (let query = trim (searchInput_value p) in
      if query \<noteq> [] then searchFeatures (''name:'' @ query @ '' OR id:'' @ query) True p
      else p)"

text \<open>\<open>checkPendingSearch\<close> up to its \<open>await chrome.storage.session.get(...)\<close>, and
  from there on; the removal is not awaited.\<close>

definition checkPendingSearch :: "popup \<Rightarrow> popup" where
  "checkPendingSearch p = issue (StorageGet ''pendingSearch'') After_storage_get p"

definition checkPendingSearch_resume :: "settlement \<Rightarrow> popup \<Rightarrow> popup" where
  "checkPendingSearch_resume r p =
     (case r of
        StorageItems v \<Rightarrow>
          (case v of
             None \<Rightarrow> p
           | Some s \<Rightarrow>
               if s \<noteq> [] then
                 issue_only (StorageRemove ''pendingSearch'')
                   (handleSearch (p\<lparr>searchInput_value := s\<rparr>))
               else p)
      | _ \<Rightarrow> log ''Error checking pending search:'' p)"

text \<open>\<open>new Map(features.map(f => [f.id, f]))\<close>: a key keeps the place of its first
  entry and the value of its last.\<close>

fun map_set :: "string \<Rightarrow> detected \<Rightarrow> (string \<times> detected) list \<Rightarrow> (string \<times> detected) list" where
  "map_set k v [] = [(k, v)]"
| "map_set k v ((k', v') # m) = (if k' = k then (k, v) # m else (k', v') # map_set k v m)"

definition uniqueFeatures :: "detected list \<Rightarrow> detected list" where
  "uniqueFeatures features = map snd (foldl (\<lambda>m f. map_set (id_f f) f m) [] features)"

definition displayDetectedFeatures :: "detected list \<Rightarrow> popup \<Rightarrow> popup" where
  "displayDetectedFeatures features p =
     (let u = uniqueFeatures features in
      p\<lparr>detectedFeatures_display := ''block'',
        detectedCount := Some
          \<lparr>unique_count = length u,
           shown_labels = map (\<lambda>f. if name_f f \<noteq> [] then name_f f else id_f f) (take 3 u),
           more_count = (if length u > 3 then Some (length u - 3) else None)\<rparr>\<rparr>)"

text \<open>\<open>loadDetectedFeatures\<close> up to its \<open>await chrome.tabs.query(...)\<close>, from there
  to the call of \<open>sendMessage\<close> (with no tab, \<open>tab.id\<close> throws and the \<open>catch\<close>
  hides the section), and the callback.\<close>

definition loadDetectedFeatures :: "popup \<Rightarrow> popup" where
  "loadDetectedFeatures p = issue TabsQuery After_tabs_query p"

definition loadDetectedFeatures_resume :: "settlement \<Rightarrow> popup \<Rightarrow> popup" where
  "loadDetectedFeatures_resume r p =
     (case r of
        Tabs (t # ts) \<Rightarrow> issue (TabsSendMessage t ''GET_DETECTED_FEATURES'') After_sendMessage p
      | _ \<Rightarrow> (log ''Error loading detected features:'' p)\<lparr>detectedFeatures_display := ''none''\<rparr>)"

definition sendMessage_callback :: "settlement \<Rightarrow> popup \<Rightarrow> popup" where
  "sendMessage_callback r p =
     (case r of
        Response (Some fs) \<Rightarrow>
          if length fs > 0 then displayDetectedFeatures fs p
          else p\<lparr>detectedFeatures_display := ''none''\<rparr>
      | Response None \<Rightarrow> p\<lparr>detectedFeatures_display := ''none''\<rparr>
      | _ \<Rightarrow> (log ''Content script not ready:'' p)\<lparr>detectedFeatures_display := ''none''\<rparr>)"

definition init :: "popup \<Rightarrow> popup" where
  "init p =
     searchFeatures ''baseline_status:newly'' False
       (loadDetectedFeatures (checkPendingSearch (p\<lparr>listeners := True\<rparr>)))"

text \<open>The constructor, over the elements as the document has them: nothing has been
  requested yet, and \<open>init\<close> runs.\<close>

definition BaselinePopup :: "popup \<Rightarrow> popup" where
  "BaselinePopup d = init (d\<lparr>listeners := False, requests := [], pending := [], console := []\<rparr>)"

subsection \<open>The event loop\<close>

text \<open>
  After the constructor the panel runs one handler at a time, each to its end: a
  request settles and the continuation waiting for it runs, the user clicks the
  button, presses a key in the search field, or changes the text of the field.
\<close>

datatype event =
    Settle nat settlement
  | Click
  | Keypress string
  | Typed string

definition resume :: "platform \<Rightarrow> continuation \<Rightarrow> settlement \<Rightarrow> popup \<Rightarrow> popup" where
  "resume pf k r p =
     (case k of
        After_storage_get \<Rightarrow> checkPendingSearch_resume r p
      | After_tabs_query \<Rightarrow> loadDetectedFeatures_resume r p
      | After_sendMessage \<Rightarrow> sendMessage_callback r p
      | After_fetch isUserSearch \<Rightarrow> searchFeatures_resume pf isUserSearch r p)"

definition step :: "platform \<Rightarrow> event \<Rightarrow> popup \<Rightarrow> popup" where
  "step pf e p =
     (case e of
        Settle n r \<Rightarrow>
          (case map_of (pending p) n of
             None \<Rightarrow> p
           | Some k \<Rightarrow> resume pf k r (p\<lparr>pending := filter (\<lambda>w. fst w \<noteq> n) (pending p)\<rparr>))
      | Click \<Rightarrow> if listeners p then handleSearch p else p
      | Keypress key \<Rightarrow> if listeners p \<and> key = ''Enter'' then handleSearch p else p
      | Typed s \<Rightarrow> p\<lparr>searchInput_value := s\<rparr>)"

definition run :: "platform \<Rightarrow> event list \<Rightarrow> popup \<Rightarrow> popup" where
  "run pf es p = foldl (\<lambda>q e. step pf e q) p es"

subsection \<open>The session store seen from the panel\<close>

text \<open>The store answers the read of \<open>pendingSearch\<close> with the value it holds, and a
  removal of \<open>pendingSearch\<close> deletes it.\<close>

definition storage_read :: "session \<Rightarrow> settlement" where
  "storage_read s = StorageItems (pendingSearch s)"

definition storage_effect :: "session \<Rightarrow> request \<Rightarrow> session" where
  "storage_effect s r =
     (case r of
        StorageRemove k \<Rightarrow> if k = ''pendingSearch'' then s\<lparr>pendingSearch := None\<rparr> else s
      | _ \<Rightarrow> s)"

text \<open>Opening the panel over the store: the constructor runs, the store answers the
  read (request 0), and the requests of the panel act on the store.\<close>

definition open_panel :: "platform \<Rightarrow> session \<Rightarrow> popup \<Rightarrow> popup \<times> session" where
  "open_panel pf s d =
     (let p = step pf (Settle 0 (storage_read s)) (BaselinePopup d)
      in (p, foldl storage_effect s (requests p)))"

definition blank_document :: popup where
  "blank_document =
     \<lparr>searchInput_value = [], results_display = [], results_children = [],
      loadingState_display = [], noResults_display = [], detectedFeatures_display = [],
      detectedCount = None, listeners = False, requests = [], pending = [], console = []\<rparr>"

definition plain_platform :: platform where
  "plain_platform = \<lparr>toLocaleDateString = (\<lambda>s. s), url_hostname = (\<lambda>s. Some s)\<rparr>"

text \<open>The number of card opening tags in the markup of the \<open>results\<close> element.\<close>

definition rendered_cards :: "results_node list \<Rightarrow> nat" where
  "rendered_cards nodes =
     sum_list (map (\<lambda>n. case n of Markup h \<Rightarrow> count_cards h | _ \<Rightarrow> 0) nodes)"

text \<open>A catalog feature whose name is itself the markup of an empty card.\<close>

definition markup_named_feature :: catalog_feature where
  \<open>markup_named_feature =
     \<lparr>feature_id = Some ''grid'', name_c = Some ''<div class="feature-card"></div>'',
      baseline_c = None, spec_links = None\<rparr>\<close>

definition is_fetch :: "request \<Rightarrow> bool" where
  "is_fetch r = (case r of Fetch u \<Rightarrow> True | _ \<Rightarrow> False)"

definition is_settle :: "event \<Rightarrow> bool" where
  "is_settle e = (case e of Settle n r \<Rightarrow> True | _ \<Rightarrow> False)"

text \<open>In a sequence of requests, \<open>a\<close> is issued before \<open>b\<close> is first issued.\<close>

definition issued_before :: "request \<Rightarrow> request \<Rightarrow> request list \<Rightarrow> bool" where
  "issued_before a b rs \<longleftrightarrow> a \<in> set (takeWhile (\<lambda>r. r \<noteq> b) rs)"

definition feature_without_baseline :: catalog_feature where
  "feature_without_baseline =
     \<lparr>feature_id = Some ''grid'', name_c = Some ''Grid'', baseline_c = None, spec_links = None\<rparr>"

definition grid_store :: session where
  "grid_store = \<lparr>pendingSearch = Some ''grid'', features_tab = (\<lambda>t. None)\<rparr>"

section \<open>Properties of the detected-feature set\<close>

lemma find_existing_None: "find_existing i fs = None \<longleftrightarrow> i \<notin> id_f ` set fs"
  by (auto simp: find_existing_def find_None_iff)

lemma ids_assign_evidence: "map id_f (assign_evidence i e fs) = map id_f fs"
  by (induction fs) auto

lemma ids_addFeature:
  "map id_f (addFeature i n t e fs) =
     (if i \<in> id_f ` set fs then map id_f fs else map id_f fs @ [i])"
  using find_existing_None [of i fs]
  by (auto simp: addFeature_def ids_assign_evidence split: option.splits)

text \<open>With distinct ids, the assignment changes the member with the id and no other.\<close>

lemma set_assign_evidence:
  "distinct (map id_f fs) \<Longrightarrow> g \<in> set (assign_evidence i e fs) \<Longrightarrow>
     (id_f g = i \<and> (\<exists>f \<in> set fs. id_f f = i \<and> g = f\<lparr>evidence_f := e\<rparr>)) \<or>
     (id_f g \<noteq> i \<and> g \<in> set fs)"
proof (induction fs)
  case Nil
  then show ?case by simp
next
  case (Cons a fs)
  show ?case
  proof (cases "id_f a = i")
    case True
    with Cons.prems have "g = a\<lparr>evidence_f := e\<rparr> \<or> g \<in> set fs" by auto
    then show ?thesis
    proof
      assume "g = a\<lparr>evidence_f := e\<rparr>"
      with True show ?thesis by auto
    next
      assume "g \<in> set fs"
      moreover have "id_f a \<notin> id_f ` set fs" using Cons.prems(1) by simp
      then have "id_f g \<noteq> i" using \<open>g \<in> set fs\<close> True by (metis imageI)
      ultimately show ?thesis by simp
    qed
  next
    case False
    with Cons.prems have "g = a \<or> g \<in> set (assign_evidence i e fs)" by auto
    then show ?thesis
    proof
      assume "g = a"
      with False show ?thesis by simp
    next
      assume "g \<in> set (assign_evidence i e fs)"
      with Cons.IH Cons.prems(1) show ?thesis by auto
    qed
  qed
qed

lemma find_snoc:
  "find P (xs @ [y]) = (case find P xs of Some x \<Rightarrow> Some x | None \<Rightarrow> if P y then Some y else None)"
  by (induction xs) auto

lemma first_call_snoc:
  "first_call i (calls @ [c]) =
     (case first_call i calls of
        Some x \<Rightarrow> Some x
      | None \<Rightarrow> if call_id c = i then Some c else None)"
  by (simp add: first_call_def find_snoc)

lemma last_call_snoc:
  "last_call i (calls @ [c]) = (if call_id c = i then Some c else last_call i calls)"
  by (simp add: last_call_def)

lemma first_call_None: "first_call i calls = None \<longleftrightarrow> i \<notin> call_id ` set calls"
  by (auto simp: first_call_def find_None_iff)

lemma add_all_snoc: "add_all (calls @ [c]) = apply_call (add_all calls) c"
  by (simp add: add_all_def)

lemma agrees_snoc_other:
  assumes "agrees calls g" "id_f g \<noteq> call_id c"
  shows "agrees (calls @ [c]) g"
proof -
  from assms(1) obtain c1 c2 where
    "first_call (id_f g) calls = Some c1" "last_call (id_f g) calls = Some c2"
    "name_f g = call_name c1" "type_f g = call_type c1" "evidence_f g = call_evidence c2"
    by (auto simp: agrees_def split: option.splits)
  with assms(2) show ?thesis
    by (simp add: agrees_def first_call_snoc last_call_snoc)
qed

lemma agrees_snoc_same:
  assumes "agrees calls f" "id_f f = call_id c"
  shows "agrees (calls @ [c]) (f\<lparr>evidence_f := call_evidence c\<rparr>)"
proof -
  from assms(1) obtain c1 c2 where
    "first_call (id_f f) calls = Some c1" "last_call (id_f f) calls = Some c2"
    "name_f f = call_name c1" "type_f f = call_type c1"
    by (auto simp: agrees_def split: option.splits)
  with assms(2) show ?thesis
    by (simp add: agrees_def first_call_snoc last_call_snoc)
qed

lemma agrees_new:
  assumes "call_id c \<notin> call_id ` set calls"
  shows "agrees (calls @ [c])
     \<lparr>id_f = call_id c, name_f = call_name c, type_f = call_type c, evidence_f = call_evidence c\<rparr>"
proof -
  from assms have "first_call (call_id c) calls = None" by (simp add: first_call_None)
  then show ?thesis
    by (simp add: agrees_def first_call_snoc last_call_snoc)
qed

text \<open>
  Claim C1. After any sequence of \<open>addFeature\<close> calls on a new Scanner instance the
  detected set holds exactly one entry for each distinct id that was passed (the ids
  of the entries are pairwise distinct, and they are the ids of the calls); each
  entry has the evidence of the last call with its id and the name and type of the
  first call with its id.
\<close>

theorem addFeature_one_entry_per_id:
  "distinct (map id_f (add_all calls)) \<and>
   id_f ` set (add_all calls) = call_id ` set calls \<and>
   (\<forall>f \<in> set (add_all calls). agrees calls f)"
proof (induction calls rule: rev_induct)
  case Nil
  then show ?case by (simp add: add_all_def)
next
  case (snoc c calls)
  let ?fs = "add_all calls"
  let ?i = "call_id c"
  from snoc have d: "distinct (map id_f ?fs)" by blast
  from snoc have s: "id_f ` set ?fs = call_id ` set calls" by blast
  from snoc have a: "\<And>f. f \<in> set ?fs \<Longrightarrow> agrees calls f" by blast
  have ids: "map id_f (add_all (calls @ [c])) =
      (if ?i \<in> id_f ` set ?fs then map id_f ?fs else map id_f ?fs @ [?i])"
    by (simp add: add_all_snoc apply_call_def ids_addFeature)
  have 1: "distinct (map id_f (add_all (calls @ [c])))"
    using d by (simp add: ids)
  have "id_f ` set (add_all (calls @ [c])) = set (map id_f (add_all (calls @ [c])))"
    by simp
  also have "\<dots> = insert ?i (id_f ` set ?fs)"
    unfolding ids by auto
  also have "\<dots> = call_id ` set (calls @ [c])"
    unfolding s by simp
  finally have 2: "id_f ` set (add_all (calls @ [c])) = call_id ` set (calls @ [c])" .
  have 3: "agrees (calls @ [c]) g" if g: "g \<in> set (add_all (calls @ [c]))" for g
  proof (cases "find_existing ?i ?fs")
    case None
    then have "?i \<notin> id_f ` set ?fs" by (simp add: find_existing_None)
    then have notin: "?i \<notin> call_id ` set calls" unfolding s .
    from None g have "g \<in> set ?fs \<or> g = \<lparr>id_f = ?i, name_f = call_name c, type_f = call_type c, evidence_f = call_evidence c\<rparr>"
      unfolding add_all_snoc apply_call_def addFeature_def by auto
    then show ?thesis
    proof
      assume m: "g \<in> set ?fs"
      then have "id_f g \<in> call_id ` set calls" unfolding s [symmetric] by (rule imageI)
      then have "id_f g \<noteq> ?i" using notin by metis
      with a [OF m] show ?thesis by (rule agrees_snoc_other)
    next
      assume "g = \<lparr>id_f = ?i, name_f = call_name c, type_f = call_type c, evidence_f = call_evidence c\<rparr>"
      with agrees_new [OF notin] show ?thesis by simp
    qed
  next
    case (Some ex)
    with g have "g \<in> set (assign_evidence ?i (call_evidence c) ?fs)"
      unfolding add_all_snoc apply_call_def addFeature_def by simp
    from set_assign_evidence [OF d this]
    show ?thesis
    proof
      assume "id_f g = ?i \<and> (\<exists>f \<in> set ?fs. id_f f = ?i \<and> g = f\<lparr>evidence_f := call_evidence c\<rparr>)"
      then obtain f where f: "f \<in> set ?fs" "id_f f = ?i" "g = f\<lparr>evidence_f := call_evidence c\<rparr>"
        by blast
      from a [OF f(1)] f(2) show ?thesis unfolding f(3) by (rule agrees_snoc_same)
    next
      assume h: "id_f g \<noteq> ?i \<and> g \<in> set ?fs"
      then have "agrees calls g" using a by blast
      then show ?thesis using h by (simp add: agrees_snoc_other)
    qed
  qed
  show ?case
  proof (intro conjI ballI)
    show "distinct (map id_f (add_all (calls @ [c])))" by (rule 1)
    show "id_f ` set (add_all (calls @ [c])) = call_id ` set (calls @ [c])" by (rule 2)
    show "agrees (calls @ [c]) g" if "g \<in> set (add_all (calls @ [c]))" for g
      using that by (rule 3)
  qed
qed

theorem addFeature_one_entry_per_id_witness:
  "add_all grid_flex_grid =
     [\<lparr>id_f = ''css-grid'', name_f = ''CSS Grid Layout'', type_f = ''css'',
        evidence_f = ''Active on div''\<rparr>,
      \<lparr>id_f = ''flexbox'', name_f = ''CSS Flexible Box Layout'', type_f = ''css'',
        evidence_f = ''Found in stylesheets''\<rparr>] \<and>
   distinct (map id_f (add_all grid_flex_grid)) \<and>
   id_f ` set (add_all grid_flex_grid) = call_id ` set grid_flex_grid \<and>
   agrees grid_flex_grid
     \<lparr>id_f = ''css-grid'', name_f = ''CSS Grid Layout'', type_f = ''css'',
        evidence_f = ''Active on div''\<rparr> \<and>
   agrees grid_flex_grid
     \<lparr>id_f = ''flexbox'', name_f = ''CSS Flexible Box Layout'', type_f = ''css'',
        evidence_f = ''Found in stylesheets''\<rparr>"
proof -
  have run: "add_all grid_flex_grid =
     [\<lparr>id_f = ''css-grid'', name_f = ''CSS Grid Layout'', type_f = ''css'',
        evidence_f = ''Active on div''\<rparr>,
      \<lparr>id_f = ''flexbox'', name_f = ''CSS Flexible Box Layout'', type_f = ''css'',
        evidence_f = ''Found in stylesheets''\<rparr>]"
    by (simp add: add_all_def grid_flex_grid_def apply_call_def addFeature_def
        find_existing_def call_id_def call_name_def call_type_def call_evidence_def)
  from addFeature_one_entry_per_id [of grid_flex_grid] show ?thesis
    unfolding run by simp
qed

section \<open>Properties of the detection pass\<close>

text \<open>The passes at work on a page with the inline style \<open>display: grid;\<close> and
  the inline script \<open>a?.b ?? c\<close>.\<close>

lemma texts_inline_page:
  "getAllCSSText inline_page = ''display: grid; ''"
  "getAllScriptText inline_page = ''a?.b ?? c ''"
  by (simp_all add: getAllCSSText_def getAllScriptText_def inline_page_def filter_page_def
      plain_element_def)

lemma analyzeStyleSheets_inline_page:
  "map id_f (analyzeStyleSheets inline_page []) = [''css-grid'']"
  unfolding analyzeStyleSheets_def texts_inline_page by code_simp

lemma detectModernSyntax_inline_page:
  "map id_f (detectModernSyntax inline_page []) = [''optional-chaining'', ''nullish-coalescing'']"
  unfolding detectModernSyntax_def texts_inline_page by code_simp

lemma ids_detect:
  "id_f ` set (detect c i n t e fs) = (if c then insert i (id_f ` set fs) else id_f ` set fs)"
proof -
  have "id_f ` set (addFeature i n t e fs) = set (map id_f (addFeature i n t e fs))" by simp
  also have "\<dots> = insert i (id_f ` set fs)"
    unfolding ids_addFeature by auto
  finally show ?thesis by (simp add: detect_def)
qed

lemma detect_agree:
  "agree_outside X fs gs \<Longrightarrow> agree_outside X (detect c i n t e fs) (detect c i n t e gs)"
  unfolding agree_outside_def ids_detect by auto

lemma detect_inside:
  "i \<in> X \<Longrightarrow> agree_outside X (detect c i n t e fs) fs"
  unfolding agree_outside_def ids_detect by auto

lemma agree_refl: "agree_outside X fs fs"
  by (simp add: agree_outside_def)

lemma agree_trans:
  "agree_outside X fs gs \<Longrightarrow> agree_outside X gs hs \<Longrightarrow> agree_outside X fs hs"
  by (simp add: agree_outside_def)

lemma agree_sym: "agree_outside X fs gs \<Longrightarrow> agree_outside X gs fs"
  by (simp add: agree_outside_def)

lemma inspect_element_inside: "agree_outside sampled_ids (inspect_element el fs) fs"
proof -
  have m: "''css-grid'' \<in> sampled_ids" "''flexbox'' \<in> sampled_ids"
    "''css-transforms'' \<in> sampled_ids" "''css-filters'' \<in> sampled_ids"
    by (simp_all add: sampled_ids_def)
  show ?thesis
    unfolding inspect_element_def Let_def
    by (rule agree_trans [OF detect_inside [OF m(4)]],
        rule agree_trans [OF detect_inside [OF m(3)]],
        rule agree_trans [OF detect_inside [OF m(2)]],
        rule detect_inside [OF m(1)])
qed

lemma sample_loop_inside:
  "agree_outside sampled_ids (foldl (\<lambda>acc i. inspect_element (f i) acc) fs xs) fs"
proof (induction xs arbitrary: fs)
  case Nil
  show ?case by (simp add: agree_refl)
next
  case (Cons x xs)
  have "agree_outside sampled_ids
      (foldl (\<lambda>acc i. inspect_element (f i) acc) (inspect_element (f x) fs) xs)
      (inspect_element (f x) fs)"
    by (rule Cons.IH)
  then have "agree_outside sampled_ids
      (foldl (\<lambda>acc i. inspect_element (f i) acc) (inspect_element (f x) fs) xs) fs"
    using inspect_element_inside [of "f x" fs] by (rule agree_trans)
  then show ?case by simp
qed

lemma analyzeComputedStyles_inside:
  "agree_outside sampled_ids (analyzeComputedStyles rnd pg fs) fs"
  unfolding analyzeComputedStyles_def Let_def by (rule sample_loop_inside)

lemma analyzeStyleSheets_agree:
  "agree_outside X fs gs \<Longrightarrow> agree_outside X (analyzeStyleSheets pg fs) (analyzeStyleSheets pg gs)"
  unfolding analyzeStyleSheets_def Let_def by (intro detect_agree)

lemma detectCSSCustomProperties_agree:
  "agree_outside X fs gs \<Longrightarrow>
     agree_outside X (detectCSSCustomProperties pg fs) (detectCSSCustomProperties pg gs)"
  unfolding detectCSSCustomProperties_def Let_def by (intro detect_agree)

lemma detectModernCSSFeatures_agree:
  "agree_outside X fs gs \<Longrightarrow>
     agree_outside X (detectModernCSSFeatures pg fs) (detectModernCSSFeatures pg gs)"
  unfolding detectModernCSSFeatures_def Let_def by (intro detect_agree)

lemma detectCSSFeatures_agree:
  "agree_outside sampled_ids (detectCSSFeatures rnd1 pg fs) (detectCSSFeatures rnd2 pg fs)"
proof -
  let ?a = "analyzeStyleSheets pg fs"
  have "agree_outside sampled_ids (analyzeComputedStyles rnd1 pg ?a) ?a"
    by (rule analyzeComputedStyles_inside)
  moreover have "agree_outside sampled_ids ?a (analyzeComputedStyles rnd2 pg ?a)"
    by (rule agree_sym) (rule analyzeComputedStyles_inside)
  ultimately have "agree_outside sampled_ids (analyzeComputedStyles rnd1 pg ?a)
      (analyzeComputedStyles rnd2 pg ?a)"
    by (rule agree_trans)
  then show ?thesis
    unfolding detectCSSFeatures_def
    by (intro detectModernCSSFeatures_agree detectCSSCustomProperties_agree)
qed

lemma detectJavaScriptFeatures_agree:
  "agree_outside X fs gs \<Longrightarrow>
     agree_outside X (detectJavaScriptFeatures pg fs) (detectJavaScriptFeatures pg gs)"
  unfolding detectJavaScriptFeatures_def detectESModules_def detectWebAPIs_def
    detectModernSyntax_def detectPromiseFeatures_def Let_def
  by (intro detect_agree)

lemma detectedFeatures_analyzeDocument:
  "detectedFeatures (fst (analyzeDocument rnd pg sc)) = features_after rnd pg"
  by (simp add: analyzeDocument_def features_after_def Let_def sendResultsToBackground_def
      split: sum.splits)

lemma detectHTMLFeatures_agree:
  assumes "agree_outside X fs gs"
  shows "agree_outside X
     (case detectHTMLFeatures pg fs of Inl err \<Rightarrow> fs | Inr fs' \<Rightarrow> fs')
     (case detectHTMLFeatures pg gs of Inl err \<Rightarrow> gs | Inr gs' \<Rightarrow> gs')"
proof (cases "customElements pg = CE_no_getNames")
  case True
  with assms show ?thesis by (simp add: detectHTMLFeatures_def)
next
  case False
  then have "\<And>hs. detectHTMLFeatures pg hs =
      Inr (detect (dialogElements pg > 0)
            ''dialog-element'' ''Dialog Element'' ''html''
            (''Found '' @ toString (dialogElements pg) @ '' dialog elements'')
         (detect (pictureElements pg > 0)
            ''picture-element'' ''Picture Element'' ''html''
            (''Found '' @ toString (pictureElements pg) @ '' picture elements'')
         (detect (detailsElements pg > 0)
            ''details-summary'' ''Details/Summary Elements'' ''html''
            (''Found '' @ toString (detailsElements pg) @ '' details elements'')
         (detect (modernInputs pg > 0)
            ''html5-forms'' ''HTML5 Form Controls'' ''html''
            (''Found '' @ toString (modernInputs pg) @ '' modern input types'')
         (detect (shadowroot_elements pg > 0 \<or> inside_shadowroot pg \<noteq> 0)
            ''shadow-dom'' ''Shadow DOM'' ''html'' ''Found shadow DOM usage''
         (detect (case customElements pg of CE_names n \<Rightarrow> n > 0 | _ \<Rightarrow> False)
            ''custom-elements'' ''Custom Elements'' ''html''
            ''Found registered custom elements'' hs))))))"
    by (cases "customElements pg") (simp_all add: detectHTMLFeatures_def Let_def)
  then show ?thesis
    using assms by (simp add: detect_agree)
qed

lemma features_after_agree:
  "agree_outside sampled_ids (features_after rnd1 pg) (features_after rnd2 pg)"
  unfolding features_after_def Let_def
  by (intro detectHTMLFeatures_agree detectJavaScriptFeatures_agree detectCSSFeatures_agree)

lemma sample_loop_cong:
  "(\<And>i. i \<in> set xs \<Longrightarrow> f i = g i) \<Longrightarrow>
     foldl (\<lambda>acc i. inspect_element (f i) acc) fs xs =
     foldl (\<lambda>acc i. inspect_element (g i) acc) fs xs"
  by (induction xs arbitrary: fs) simp_all

lemma analyzeComputedStyles_same_draws:
  assumes "\<forall>i < min (length (elements pg)) 50.
      rnd2 i mod length (elements pg) = rnd1 i mod length (elements pg)"
  shows "analyzeComputedStyles rnd2 pg fs = analyzeComputedStyles rnd1 pg fs"
  unfolding analyzeComputedStyles_def Let_def
  by (rule sample_loop_cong) (use assms in simp)

text \<open>
  Claim C3, amended. Two runs of \<open>analyzeDocument\<close> on an unchanged page give the
  same set of ids whenever the computed-style sample of the second run draws the
  same elements as that of the first; and whatever the two samples draw, the two
  sets of ids agree on every id other than the four that the sample can add
  (\<open>css-grid\<close>, \<open>flexbox\<close>, \<open>css-transforms\<close>, \<open>css-filters\<close>).
\<close>

theorem analyzeDocument_rerun:
  "((\<forall>i < min (length (elements pg)) 50.
        rnd2 i mod length (elements pg) = rnd1 i mod length (elements pg)) \<longrightarrow>
      ids_after rnd2 pg (fst (analyzeDocument rnd1 pg sc)) = ids_after rnd1 pg sc) \<and>
   ids_after rnd2 pg (fst (analyzeDocument rnd1 pg sc)) - sampled_ids =
     ids_after rnd1 pg sc - sampled_ids"
proof (intro conjI impI)
  assume "\<forall>i < min (length (elements pg)) 50.
        rnd2 i mod length (elements pg) = rnd1 i mod length (elements pg)"
  then have "analyzeComputedStyles rnd2 pg fs = analyzeComputedStyles rnd1 pg fs" for fs
    by (rule analyzeComputedStyles_same_draws)
  then have "features_after rnd2 pg = features_after rnd1 pg"
    by (simp add: features_after_def detectCSSFeatures_def)
  then show "ids_after rnd2 pg (fst (analyzeDocument rnd1 pg sc)) = ids_after rnd1 pg sc"
    by (simp add: ids_after_def detectedFeatures_analyzeDocument)
next
  from features_after_agree [of rnd2 pg rnd1]
  show "ids_after rnd2 pg (fst (analyzeDocument rnd1 pg sc)) - sampled_ids =
     ids_after rnd1 pg sc - sampled_ids"
    by (simp add: ids_after_def detectedFeatures_analyzeDocument agree_outside_def)
qed


lemma test_Nil: "test r [] = nullable r"
  by (simp add: test_def matches_def)

lemma nullable_lit: "nullable (lit s) \<longleftrightarrow> s = []"
  by (cases s) (simp_all add: lit_def)

lemma texts_filter_page: "getAllCSSText filter_page = []" "getAllScriptText filter_page = []"
  by (simp_all add: getAllCSSText_def getAllScriptText_def filter_page_def plain_element_def)

lemma analyzeStyleSheets_filter_page: "analyzeStyleSheets filter_page fs = fs"
  by (simp add: analyzeStyleSheets_def Let_def texts_filter_page test_Nil nullable_lit
      seqs_def alts_def ws_def detect_def)

lemma detectCSSCustomProperties_filter_page: "detectCSSCustomProperties filter_page fs = fs"
  by (simp add: detectCSSCustomProperties_def Let_def texts_filter_page test_Nil nullable_lit
      seqs_def alts_def ws_def plus_def detect_def)

lemma detectModernCSSFeatures_filter_page: "detectModernCSSFeatures filter_page fs = fs"
  by (simp add: detectModernCSSFeatures_def Let_def texts_filter_page test_Nil nullable_lit
      seqs_def alts_def ws_def detect_def)

lemma module_scripts_filter_page: "module_scripts filter_page = 0"
  by (simp add: filter_page_def)

lemma detectPromiseFeatures_filter_page: "detectPromiseFeatures filter_page fs = fs"
  by (simp add: detectPromiseFeatures_def Let_def texts_filter_page test_Nil nullable_lit
      detect_def)

lemma detectModernSyntax_filter_page: "detectModernSyntax filter_page fs = fs"
  by (simp add: detectModernSyntax_def Let_def texts_filter_page test_Nil nullable_lit
      seqs_def alts_def ws_def plus_def detect_def)

lemma detectWebAPIs_filter_page: "detectWebAPIs filter_page fs = fs"
  by (simp add: detectWebAPIs_def Let_def texts_filter_page test_Nil nullable_lit
      seqs_def ws_def plus_def detect_def)

lemma detectESModules_filter_page: "detectESModules filter_page fs = fs"
  by (simp add: detectESModules_def Let_def texts_filter_page test_Nil nullable_lit
      seqs_def ws_def detect_def module_scripts_filter_page)

lemma detectJavaScriptFeatures_filter_page: "detectJavaScriptFeatures filter_page fs = fs"
  by (simp add: detectJavaScriptFeatures_def detectPromiseFeatures_filter_page
      detectModernSyntax_filter_page detectWebAPIs_filter_page detectESModules_filter_page)

lemma detectHTMLFeatures_filter_page: "detectHTMLFeatures filter_page fs = Inr fs"
  by (simp add: detectHTMLFeatures_def Let_def detect_def filter_page_def)

lemma features_after_filter_page:
  "features_after rnd filter_page = analyzeComputedStyles rnd filter_page []"
  by (simp add: features_after_def detectCSSFeatures_def analyzeStyleSheets_filter_page
      detectCSSCustomProperties_filter_page detectModernCSSFeatures_filter_page
      detectJavaScriptFeatures_filter_page detectHTMLFeatures_filter_page)

lemma sample_first: "analyzeComputedStyles draw_first filter_page [] = []"
  by (simp add: analyzeComputedStyles_def Let_def draw_first_def filter_page_def
      plain_element_def inspect_element_def detect_def)

lemma lower_div: "toLowerCase ''DIV'' = ''div''"
  by (simp add: toLowerCase_def lower_char_def)

lemma inspect_div:
  "inspect_element ((plain_element ''DIV'')\<lparr>computed_filter := ''blur(5px)''\<rparr>) fs =
     addFeature ''css-filters'' ''CSS Filters'' ''css'' ''Active on div'' fs"
  by (simp add: inspect_element_def Let_def detect_def plain_element_def lower_div)

lemma sample_fifth:
  "analyzeComputedStyles draw_fifth filter_page [] =
     [\<lparr>id_f = ''css-filters'', name_f = ''CSS Filters'', type_f = ''css'',
        evidence_f = ''Active on div''\<rparr>]"
proof -
  have "analyzeComputedStyles draw_fifth filter_page [] =
      foldl (\<lambda>acc i. inspect_element
          ((plain_element ''DIV'')\<lparr>computed_filter := ''blur(5px)''\<rparr>) acc) []
        [0, 1, 2, 3, 4::nat]"
    by (simp add: analyzeComputedStyles_def Let_def draw_fifth_def filter_page_def
        upt_rec_numeral)
  also have "\<dots> = [\<lparr>id_f = ''css-filters'', name_f = ''CSS Filters'', type_f = ''css'',
        evidence_f = ''Active on div''\<rparr>]"
    unfolding inspect_div
    by (simp add: addFeature_def find_existing_def)
  finally show ?thesis .
qed

text \<open>
  Claim C3, as stated, has every second run give the ids of the first. On a page of
  five elements where only the last one, a \<open>div\<close>, has a filter (set by a
  cross-origin style sheet, so that no style text can be read), a first run whose
  sample draws the first element five times finds nothing, and a second run whose
  sample draws the \<open>div\<close> finds \<open>css-filters\<close>.
\<close>

theorem rerun_differs_counterexample:
  "ids_after draw_first filter_page new_scanner = {} \<and>
   ids_after draw_fifth filter_page (fst (analyzeDocument draw_first filter_page new_scanner)) =
     {''css-filters''} \<and>
   ids_after draw_fifth filter_page (fst (analyzeDocument draw_first filter_page new_scanner)) \<noteq>
     ids_after draw_first filter_page new_scanner"
  by (simp add: ids_after_def detectedFeatures_analyzeDocument features_after_filter_page
      sample_first sample_fifth)

theorem analyzeDocument_rerun_witness:
  "ids_after draw_tenth filter_page (fst (analyzeDocument draw_fifth filter_page new_scanner)) =
     ids_after draw_fifth filter_page new_scanner \<and>
   ids_after draw_fifth filter_page new_scanner = {''css-filters''} \<and>
   ids_after draw_fifth filter_page (fst (analyzeDocument draw_first filter_page new_scanner)) -
       sampled_ids =
     ids_after draw_first filter_page new_scanner - sampled_ids"
proof -
  have d: "\<forall>i < min (length (elements filter_page)) 50.
      draw_tenth i mod length (elements filter_page) =
      draw_fifth i mod length (elements filter_page)"
    by (simp add: draw_tenth_def draw_fifth_def filter_page_def)
  have v: "ids_after draw_fifth filter_page new_scanner = {''css-filters''}"
    by (simp add: ids_after_def detectedFeatures_analyzeDocument features_after_filter_page
        sample_fifth)
  from analyzeDocument_rerun [of filter_page draw_tenth draw_fifth new_scanner] d
  have a: "ids_after draw_tenth filter_page
      (fst (analyzeDocument draw_fifth filter_page new_scanner)) =
     ids_after draw_fifth filter_page new_scanner"
    by (simp only: simp_thms)
  from analyzeDocument_rerun [of filter_page draw_fifth draw_first new_scanner]
  have b: "ids_after draw_fifth filter_page
      (fst (analyzeDocument draw_first filter_page new_scanner)) - sampled_ids =
     ids_after draw_first filter_page new_scanner - sampled_ids"
    by (rule conjunct2)
  from a v b show ?thesis by (intro conjI)
qed

section \<open>Properties of the highlight requests\<close>

lemma not_highlighted_remove: "\<not> highlighted (remove_highlight el)"
  by (simp add: remove_highlight_def)

lemma mark_remove: "mark l (remove_highlight el) = mark l el"
  by (simp add: mark_def remove_highlight_def)

lemma rules_remove:
  "is_grid (remove_highlight el) = is_grid el"
  "is_flex (remove_highlight el) = is_flex el"
  "is_transformed (remove_highlight el) = is_transformed el"
  by (simp_all add: is_grid_def is_flex_def is_transformed_def remove_highlight_def)

text \<open>
  Claim C4, amended. Every highlight request first removes the highlight markers
  from every element that carries the class: after that step no element is
  highlighted. If the shared style rule is absent and the document has no \<open>head\<close>,
  injecting the rule throws and the request ends there, for every feature id: the
  page is left with the markers removed, nothing is marked and nothing is logged.
  Otherwise the rule is in place afterwards, and for a recognized feature id
  (\<open>css-grid\<close>, \<open>flexbox\<close>, \<open>css-transforms\<close>) the new markers are applied to the
  cleared page: in the end exactly the elements that match the feature's rule
  carry the marker with the feature's label, and every other element has lost the
  marker it had. For any other feature id \<open>highlightSpecificFeature\<close> changes no
  element, and the request as a whole still removes the markers applied before,
  applies no new one and (when it does not throw) logs that highlighting is not
  implemented.
\<close>

theorem highlight_request:
  "(\<forall>el \<in> set (elements (removeExistingHighlights pg)). \<not> highlighted el) \<and>
   (\<not> highlight_styles pg \<and> \<not> has_head pg \<longrightarrow>
      highlightFeatureUsage featureId pg = (removeExistingHighlights pg, Some TypeError)) \<and>
   (highlight_styles pg \<or> has_head pg \<longrightarrow>
      highlightFeatureUsage featureId pg =
        (highlightSpecificFeature featureId
           ((removeExistingHighlights pg)\<lparr>highlight_styles := True\<rparr>), None) \<and>
      highlight_styles (fst (highlightFeatureUsage featureId pg)) \<and>
      elements (fst (highlightFeatureUsage ''css-grid'' pg)) =
        map (\<lambda>el. if is_grid el then mark ''CSS Grid'' el else remove_highlight el) (elements pg) \<and>
      elements (fst (highlightFeatureUsage ''flexbox'' pg)) =
        map (\<lambda>el. if is_flex el then mark ''Flexbox'' el else remove_highlight el) (elements pg) \<and>
      elements (fst (highlightFeatureUsage ''css-transforms'' pg)) =
        map (\<lambda>el. if is_transformed el then mark ''CSS Transform'' el else remove_highlight el)
          (elements pg)) \<and>
   (\<not> highlightable featureId \<longrightarrow>
      elements (highlightSpecificFeature featureId pg) = elements pg \<and>
      elements (fst (highlightFeatureUsage featureId pg)) = map remove_highlight (elements pg) \<and>
      (highlight_styles pg \<or> has_head pg \<longrightarrow>
         console_p (fst (highlightFeatureUsage featureId pg)) =
           console_p pg @ [''Highlighting not implemented for feature: '' @ featureId]))"
proof (intro conjI impI ballI)
  fix el assume "el \<in> set (elements (removeExistingHighlights pg))"
  then show "\<not> highlighted el"
    by (auto simp: removeExistingHighlights_def not_highlighted_remove)
next
  assume "\<not> highlight_styles pg \<and> \<not> has_head pg"
  then show "highlightFeatureUsage featureId pg = (removeExistingHighlights pg, Some TypeError)"
    by (simp add: highlightFeatureUsage_def Let_def removeExistingHighlights_def)
next
  assume "highlight_styles pg \<or> has_head pg"
  then have eq: "highlightFeatureUsage fid pg =
        (highlightSpecificFeature fid
           ((removeExistingHighlights pg)\<lparr>highlight_styles := True\<rparr>), None)" for fid
    by (auto simp: highlightFeatureUsage_def Let_def removeExistingHighlights_def)
  show "highlightFeatureUsage featureId pg =
        (highlightSpecificFeature featureId
           ((removeExistingHighlights pg)\<lparr>highlight_styles := True\<rparr>), None)"
    by (rule eq)
  show "highlight_styles (fst (highlightFeatureUsage featureId pg))"
    unfolding eq by (simp add: highlightSpecificFeature_def)
  show "elements (fst (highlightFeatureUsage ''css-grid'' pg)) =
        map (\<lambda>el. if is_grid el then mark ''CSS Grid'' el else remove_highlight el) (elements pg)"
    unfolding eq
    by (simp add: highlightSpecificFeature_def removeExistingHighlights_def rules_remove
        mark_remove o_def)
  show "elements (fst (highlightFeatureUsage ''flexbox'' pg)) =
        map (\<lambda>el. if is_flex el then mark ''Flexbox'' el else remove_highlight el) (elements pg)"
    unfolding eq
    by (simp add: highlightSpecificFeature_def removeExistingHighlights_def rules_remove
        mark_remove o_def)
  show "elements (fst (highlightFeatureUsage ''css-transforms'' pg)) =
        map (\<lambda>el. if is_transformed el then mark ''CSS Transform'' el else remove_highlight el)
          (elements pg)"
    unfolding eq
    by (simp add: highlightSpecificFeature_def removeExistingHighlights_def rules_remove
        mark_remove o_def)
next
  assume u: "\<not> highlightable featureId"
  then show "elements (highlightSpecificFeature featureId pg) = elements pg"
    by (simp add: highlightable_def highlightSpecificFeature_def)
  from u show "elements (fst (highlightFeatureUsage featureId pg)) = map remove_highlight (elements pg)"
    by (simp add: highlightable_def highlightFeatureUsage_def Let_def highlightSpecificFeature_def
        removeExistingHighlights_def)
  assume "highlight_styles pg \<or> has_head pg"
  with u show "console_p (fst (highlightFeatureUsage featureId pg)) =
           console_p pg @ [''Highlighting not implemented for feature: '' @ featureId]"
    by (auto simp: highlightable_def highlightFeatureUsage_def Let_def
        highlightSpecificFeature_def removeExistingHighlights_def)
qed

lemma grid_highlighted:
  "elements (fst (highlightFeatureUsage ''css-grid'' grid_page)) =
     [plain_element ''HTML'', plain_element ''BODY'',
      (plain_element ''MAIN'')\<lparr>computed_display := ''grid'', highlighted := True,
         data_baseline_feature := Some ''CSS Grid''\<rparr>,
      (plain_element ''NAV'')\<lparr>computed_display := ''flex''\<rparr>]"
  by (simp add: highlightFeatureUsage_def Let_def highlightSpecificFeature_def
      removeExistingHighlights_def grid_page_def filter_page_def plain_element_def
      remove_highlight_def mark_def is_grid_def)

text \<open>
  Claim C4, as stated, has a request for an unrecognized id change no element state.
  After a request for \<open>css-grid\<close> has marked the grid container, a request for
  \<open>css-filters\<close> (for which there is no case) takes the class and the attribute
  from it again.
\<close>

theorem highlight_unrecognized_counterexample:
  "\<not> highlightable ''css-filters'' \<and>
   elements (fst (highlightFeatureUsage ''css-grid'' grid_page)) =
     [plain_element ''HTML'', plain_element ''BODY'',
      (plain_element ''MAIN'')\<lparr>computed_display := ''grid'', highlighted := True,
         data_baseline_feature := Some ''CSS Grid''\<rparr>,
      (plain_element ''NAV'')\<lparr>computed_display := ''flex''\<rparr>] \<and>
   elements (fst (highlightFeatureUsage ''css-filters''
       (fst (highlightFeatureUsage ''css-grid'' grid_page)))) =
     [plain_element ''HTML'', plain_element ''BODY'',
      (plain_element ''MAIN'')\<lparr>computed_display := ''grid''\<rparr>,
      (plain_element ''NAV'')\<lparr>computed_display := ''flex''\<rparr>] \<and>
   elements (fst (highlightFeatureUsage ''css-filters''
       (fst (highlightFeatureUsage ''css-grid'' grid_page)))) \<noteq>
     elements (fst (highlightFeatureUsage ''css-grid'' grid_page))"
  by (simp add: highlightable_def highlightFeatureUsage_def Let_def highlightSpecificFeature_def
      removeExistingHighlights_def grid_page_def filter_page_def plain_element_def
      remove_highlight_def mark_def is_grid_def)

theorem highlight_request_witness:
  "(highlight_styles grid_page \<or> has_head grid_page) \<and>
   elements (fst (highlightFeatureUsage ''css-grid'' grid_page)) =
     [plain_element ''HTML'', plain_element ''BODY'',
      (plain_element ''MAIN'')\<lparr>computed_display := ''grid'', highlighted := True,
         data_baseline_feature := Some ''CSS Grid''\<rparr>,
      (plain_element ''NAV'')\<lparr>computed_display := ''flex''\<rparr>] \<and>
   \<not> highlightable ''css-filters'' \<and>
   elements (highlightSpecificFeature ''css-filters'' grid_page) = elements grid_page \<and>
   console_p (fst (highlightFeatureUsage ''css-filters'' grid_page)) =
     [''Highlighting not implemented for feature: css-filters''] \<and>
   \<not> highlight_styles headless_page \<and> \<not> has_head headless_page \<and>
   highlightFeatureUsage ''css-grid'' headless_page =
     (removeExistingHighlights headless_page, Some TypeError)"
proof -
  have h: "highlight_styles grid_page \<or> has_head grid_page"
    by (simp add: grid_page_def filter_page_def)
  have u: "\<not> highlightable ''css-filters''" by (simp add: highlightable_def)
  have n: "\<not> highlight_styles headless_page \<and> \<not> has_head headless_page"
    by (simp add: headless_page_def grid_page_def filter_page_def)
  from highlight_request [of grid_page "''css-filters''"] h u
  have a: "elements (fst (highlightFeatureUsage ''css-grid'' grid_page)) =
        map (\<lambda>el. if is_grid el then mark ''CSS Grid'' el else remove_highlight el)
          (elements grid_page)"
    and b: "elements (highlightSpecificFeature ''css-filters'' grid_page) = elements grid_page"
    and c: "console_p (fst (highlightFeatureUsage ''css-filters'' grid_page)) =
        console_p grid_page @ [''Highlighting not implemented for feature: '' @ ''css-filters'']"
    by blast+
  from highlight_request [of headless_page "''css-grid''"] n
  have d: "highlightFeatureUsage ''css-grid'' headless_page =
     (removeExistingHighlights headless_page, Some TypeError)"
    by blast
  have e: "map (\<lambda>el. if is_grid el then mark ''CSS Grid'' el else remove_highlight el)
          (elements grid_page) =
     [plain_element ''HTML'', plain_element ''BODY'',
      (plain_element ''MAIN'')\<lparr>computed_display := ''grid'', highlighted := True,
         data_baseline_feature := Some ''CSS Grid''\<rparr>,
      (plain_element ''NAV'')\<lparr>computed_display := ''flex''\<rparr>]"
    by (simp add: grid_page_def filter_page_def plain_element_def remove_highlight_def mark_def
        is_grid_def)
  have f: "console_p grid_page = []" by (simp add: grid_page_def filter_page_def)
  from a b c d e f h u n show ?thesis by simp
qed

section \<open>Properties of the badge\<close>

lemma filter_limited_pos:
  "0 < length (filter is_limited fs) \<longleftrightarrow> (\<exists>f \<in> set fs. is_limited f)"
  by (simp add: filter_empty_conv)

lemma toString_1: "toString (Suc 0) = ''1''"
  by (simp add: toString.simps digit_def)

lemma toString_2: "toString (Suc (Suc 0)) = ''2''"
  by (simp add: toString.simps digit_def)

lemma toString_99: "toString 99 = ''99''"
  by (simp add: toString.simps digit_def)

lemma toString_100: "toString 100 = ''100''"
  by (simp add: toString.simps digit_def)

text \<open>
  Claim C2, as stated, speaks of every feature list given to \<open>updateBadge\<close>. With an
  undefined tab id the guard \<open>!tabId\<close> clears the badge whatever the list holds: a
  list with one limited-status feature gets the empty text, not the count \<open>1\<close> in
  red.
\<close>

theorem updateBadge_no_tab_counterexample:
  "is_limited limited_feature \<and>
   updateBadge None (Some [limited_feature]) = [SetBadgeText [] None] \<and>
   updateBadge None (Some [limited_feature]) \<noteq>
     [SetBadgeText (toString (length (filter is_limited [limited_feature]))) None,
      SetBadgeBackgroundColor ''#dc3545'' None]"
  by (simp add: updateBadge_def truthy_tab_def is_limited_def baseline_status_def
      limited_feature_def)

text \<open>
  Claim C2, amended. For every feature list given to \<open>updateBadge\<close> together with a
  tab id that is defined and not \<open>0\<close>: an empty list clears the badge (the text is
  set to the empty string); else, if at least one feature has baseline status
  \<open>limited\<close>, the text is the number of such features in decimal and the colour is
  red (\<open>#dc3545\<close>); otherwise the text is the minimum of the number of features
  and 99 in decimal and the colour is green (\<open>#28a745\<close>). With an undefined or zero
  tab id the text is set to the empty string and no colour is set.
\<close>

theorem updateBadge_rule:
  "(truthy_tab tabId \<longrightarrow>
      updateBadge tabId (Some fs) =
        (if fs = [] then [SetBadgeText [] tabId]
         else if \<exists>f \<in> set fs. is_limited f then
           [SetBadgeText (toString (length (filter is_limited fs))) tabId,
            SetBadgeBackgroundColor ''#dc3545'' tabId]
         else
           [SetBadgeText (toString (min (length fs) 99)) tabId,
            SetBadgeBackgroundColor ''#28a745'' tabId])) \<and>
   (\<not> truthy_tab tabId \<longrightarrow> updateBadge tabId (Some fs) = [SetBadgeText [] tabId])"
  using filter_limited_pos [of fs]
  by (simp add: updateBadge_def Let_def)

theorem updateBadge_rule_witness:
  "truthy_tab (Some 7) \<and> \<not> truthy_tab None \<and>
   updateBadge (Some 7) (Some []) = [SetBadgeText [] (Some 7)] \<and>
   updateBadge (Some 7) (Some [limited_feature, widely_feature]) =
     [SetBadgeText ''1'' (Some 7), SetBadgeBackgroundColor ''#dc3545'' (Some 7)] \<and>
   updateBadge (Some 7) (Some [widely_feature, newly_feature]) =
     [SetBadgeText ''2'' (Some 7), SetBadgeBackgroundColor ''#28a745'' (Some 7)] \<and>
   updateBadge (Some 7) (Some (replicate 150 widely_feature)) =
     [SetBadgeText ''99'' (Some 7), SetBadgeBackgroundColor ''#28a745'' (Some 7)] \<and>
   updateBadge None (Some [limited_feature, widely_feature]) = [SetBadgeText [] None]"
  using updateBadge_rule [of "Some 7" "[]"]
    updateBadge_rule [of "Some 7" "[limited_feature, widely_feature]"]
    updateBadge_rule [of "Some 7" "[widely_feature, newly_feature]"]
    updateBadge_rule [of "Some 7" "replicate 150 widely_feature"]
    updateBadge_rule [of None "[limited_feature, widely_feature]"]
  by (simp add: truthy_tab_def is_limited_def baseline_status_def limited_feature_def
      widely_feature_def newly_feature_def toString_1 toString_2 toString_99)




text \<open>A direct call of \<open>updateBadge\<close> with 100 limited-status features, a list that
  no Scanner sends, takes the red branch, which has no cap.\<close>

lemma updateBadge_direct_call_uncapped:
  "updateBadge (Some 7) (Some (replicate 100 limited_feature)) =
     [SetBadgeText ''100'' (Some 7), SetBadgeBackgroundColor ''#dc3545'' (Some 7)]"
  by (simp add: updateBadge_def truthy_tab_def is_limited_def baseline_status_def
      limited_feature_def toString_100)



section \<open>Properties of the Lookup Panel\<close>



lemma toString_8: "toString 8 = ''8''"
  by (simp add: toString.simps digit_def)

lemma toString_12: "toString 12 = ''12''"
  by (simp add: toString.simps digit_def)

lemma card_tag_Cons: "\<exists>q. card_tag = C CHR ''<'' # q"
  by (simp add: card_tag_def raw_def)

lemma card_tag_length: "0 < length card_tag"
  by (simp add: card_tag_def raw_def)

lemma occurrences_skip:
  assumes "x \<noteq> C CHR ''<''"
  shows "occurrences card_tag (x # z) = occurrences card_tag z"
proof -
  from card_tag_Cons obtain q where q: "card_tag = C CHR ''<'' # q" by blast
  have ne: "take (length card_tag) (x # z) \<noteq> card_tag"
  proof
    assume "take (length card_tag) (x # z) = card_tag"
    then have "x # take (length q) z = C CHR ''<'' # q" unfolding q by simp
    with assms show False by simp
  qed
  have "occurrences card_tag (x # z) =
      (if take (length card_tag) (x # z) = card_tag then 1 else 0) + occurrences card_tag z"
    by (rule occurrences.simps)
  with ne show ?thesis by (simp only: if_False add_0)
qed

lemma settled_append:
  "settled pat F \<Longrightarrow> occurrences pat (F @ z) = occurrences pat F + occurrences pat z"
proof (induction F)
  case Nil
  then show ?case by simp
next
  case (Cons x xs)
  from Cons.prems have s: "settled pat xs"
    and h: "length pat \<le> length (x # xs) \<or> take (length (x # xs)) pat \<noteq> x # xs"
    by simp_all
  have key: "(take (length pat) (x # xs @ z) = pat) = (take (length pat) (x # xs) = pat)"
  proof (cases "length pat \<le> length (x # xs)")
    case True
    have "take (length pat) ((x # xs) @ z) = take (length pat) (x # xs)"
      unfolding take_append using True by simp
    then show ?thesis by simp
  next
    case False
    with h have ne: "take (length (x # xs)) pat \<noteq> x # xs" by simp
    from False have short: "length (x # xs) < length pat" by simp
    have "take (length pat) ((x # xs) @ z) \<noteq> pat"
    proof
      assume e: "take (length pat) ((x # xs) @ z) = pat"
      have "take (length (x # xs)) (take (length pat) ((x # xs) @ z)) = x # xs"
        using short by (simp add: min_def)
      with e have "take (length (x # xs)) pat = x # xs" by simp
      with ne show False by simp
    qed
    moreover have "take (length pat) (x # xs) \<noteq> pat"
    proof
      assume "take (length pat) (x # xs) = pat"
      then have "length (take (length pat) (x # xs)) = length pat" by simp
      with short show False by simp
    qed
    ultimately show ?thesis by simp
  qed
  have "occurrences pat ((x # xs) @ z) =
      (if take (length pat) (x # xs @ z) = pat then 1 else 0) + occurrences pat (xs @ z)"
    by simp
  also have "\<dots> = (if take (length pat) (x # xs) = pat then 1 else 0) +
      (occurrences pat xs + occurrences pat z)"
    by (simp only: key Cons.IH [OF s])
  also have "\<dots> = occurrences pat (x # xs) + occurrences pat z"
    by (simp only: occurrences.simps add.assoc)
  finally show ?case .
qed

lemma inert_Nil: "inert []"
  by (simp add: inert_def)

lemma inert_append: "inert a \<Longrightarrow> inert b \<Longrightarrow> inert (a @ b)"
  by (simp add: inert_def)

lemma inert_Wide: "inert [Wide n]"
  by (simp add: inert_def occurrences_skip del: occurrences.simps)

lemma plain_no_lt: "plain s \<Longrightarrow> CHR ''<'' \<notin> set s"
  by (auto simp: plain_def)

lemma occurrences_raw:
  "CHR ''<'' \<notin> set s \<Longrightarrow> occurrences card_tag (raw s @ z) = occurrences card_tag z"
proof (induction s)
  case Nil
  then show ?case by (simp add: raw_def)
next
  case (Cons a s)
  from Cons.prems have "C a \<noteq> C CHR ''<''" by auto
  then have "occurrences card_tag (C a # (raw s @ z)) = occurrences card_tag (raw s @ z)"
    by (rule occurrences_skip)
  moreover from Cons have "occurrences card_tag (raw s @ z) = occurrences card_tag z" by simp
  moreover have "raw (a # s) @ z = C a # (raw s @ z)" by (simp add: raw_def)
  ultimately show ?case by simp
qed

lemma inert_raw: "plain s \<Longrightarrow> inert (raw s)"
  by (simp add: inert_def occurrences_raw plain_no_lt)

lemma chunk_1:
  \<open>occurrences card_tag (fixed ['''', ''      <div class="feature-card">'', ''        <div class="feature-header">'', ''          <div style="flex: 1;">'', ''            <h3 class="feature-name">''] @ z) = 1 + occurrences card_tag z\<close>
proof -
  have s: \<open>settled card_tag (fixed ['''', ''      <div class="feature-card">'', ''        <div class="feature-header">'', ''          <div style="flex: 1;">'', ''            <h3 class="feature-name">''])\<close> by code_simp
  have c: \<open>occurrences card_tag (fixed ['''', ''      <div class="feature-card">'', ''        <div class="feature-header">'', ''          <div style="flex: 1;">'', ''            <h3 class="feature-name">'']) = 1\<close> by code_simp
  from settled_append [OF s] c show ?thesis by simp
qed

lemma chunk_2:
  \<open>occurrences card_tag (fixed [''</h3>'', ''            <div class="feature-id">''] @ z) = 0 + occurrences card_tag z\<close>
proof -
  have s: \<open>settled card_tag (fixed [''</h3>'', ''            <div class="feature-id">''])\<close> by code_simp
  have c: \<open>occurrences card_tag (fixed [''</h3>'', ''            <div class="feature-id">'']) = 0\<close> by code_simp
  from settled_append [OF s] c show ?thesis by simp
qed

lemma chunk_3:
  \<open>occurrences card_tag (fixed [''</div>'', ''            <div class="status-badge ''] @ z) = 0 + occurrences card_tag z\<close>
proof -
  have s: \<open>settled card_tag (fixed [''</div>'', ''            <div class="status-badge ''])\<close> by code_simp
  have c: \<open>occurrences card_tag (fixed [''</div>'', ''            <div class="status-badge '']) = 0\<close> by code_simp
  from settled_append [OF s] c show ?thesis by simp
qed

lemma chunk_4:
  \<open>occurrences card_tag (fixed [''">'', ''              ''] @ z) = 0 + occurrences card_tag z\<close>
proof -
  have s: \<open>settled card_tag (fixed [''">'', ''              ''])\<close> by code_simp
  have c: \<open>occurrences card_tag (fixed [''">'', ''              '']) = 0\<close> by code_simp
  from settled_append [OF s] c show ?thesis by simp
qed

lemma chunk_5:
  \<open>occurrences card_tag (fixed ['''', ''            </div>'', ''          </div>'', ''        </div>'', ''        '', ''        <div style="margin-top: 12px; font-size: 12px; color: #6c757d;">'', ''          ''] @ z) = 0 + occurrences card_tag z\<close>
proof -
  have s: \<open>settled card_tag (fixed ['''', ''            </div>'', ''          </div>'', ''        </div>'', ''        '', ''        <div style="margin-top: 12px; font-size: 12px; color: #6c757d;">'', ''          ''])\<close> by code_simp
  have c: \<open>occurrences card_tag (fixed ['''', ''            </div>'', ''          </div>'', ''        </div>'', ''        '', ''        <div style="margin-top: 12px; font-size: 12px; color: #6c757d;">'', ''          '']) = 0\<close> by code_simp
  from settled_append [OF s] c show ?thesis by simp
qed

lemma chunk_6:
  \<open>occurrences card_tag (fixed ['''', ''        </div>'', ''        '', ''        ''] @ z) = 0 + occurrences card_tag z\<close>
proof -
  have s: \<open>settled card_tag (fixed ['''', ''        </div>'', ''        '', ''        ''])\<close> by code_simp
  have c: \<open>occurrences card_tag (fixed ['''', ''        </div>'', ''        '', ''        '']) = 0\<close> by code_simp
  from settled_append [OF s] c show ?thesis by simp
qed

lemma chunk_7:
  \<open>occurrences card_tag (fixed ['''', ''        '', ''        ''] @ z) = 0 + occurrences card_tag z\<close>
proof -
  have s: \<open>settled card_tag (fixed ['''', ''        '', ''        ''])\<close> by code_simp
  have c: \<open>occurrences card_tag (fixed ['''', ''        '', ''        '']) = 0\<close> by code_simp
  from settled_append [OF s] c show ?thesis by simp
qed

lemma chunk_8:
  \<open>occurrences card_tag (fixed ['''', ''      </div>'', ''    ''] @ z) = 0 + occurrences card_tag z\<close>
proof -
  have s: \<open>settled card_tag (fixed ['''', ''      </div>'', ''    ''])\<close> by code_simp
  have c: \<open>occurrences card_tag (fixed ['''', ''      </div>'', ''    '']) = 0\<close> by code_simp
  from settled_append [OF s] c show ?thesis by simp
qed

lemma chunk_9:
  \<open>occurrences card_tag (fixed ['''', ''          <div style="margin-top: 8px; font-size: 11px; color: #6c757d;">'', ''            ''] @ z) = 0 + occurrences card_tag z\<close>
proof -
  have s: \<open>settled card_tag (fixed ['''', ''          <div style="margin-top: 8px; font-size: 11px; color: #6c757d;">'', ''            ''])\<close> by code_simp
  have c: \<open>occurrences card_tag (fixed ['''', ''          <div style="margin-top: 8px; font-size: 11px; color: #6c757d;">'', ''            '']) = 0\<close> by code_simp
  from settled_append [OF s] c show ?thesis by simp
qed

lemma chunk_10:
  \<open>occurrences card_tag (raw '' Baseline Newly: '' @ z) = 0 + occurrences card_tag z\<close>
proof -
  have s: \<open>settled card_tag (raw '' Baseline Newly: '')\<close> by code_simp
  have c: \<open>occurrences card_tag (raw '' Baseline Newly: '') = 0\<close> by code_simp
  from settled_append [OF s] c show ?thesis by simp
qed

lemma chunk_11:
  \<open>occurrences card_tag (fixed ['''', ''          </div>'', ''        ''] @ z) = 0 + occurrences card_tag z\<close>
proof -
  have s: \<open>settled card_tag (fixed ['''', ''          </div>'', ''        ''])\<close> by code_simp
  have c: \<open>occurrences card_tag (fixed ['''', ''          </div>'', ''        '']) = 0\<close> by code_simp
  from settled_append [OF s] c show ?thesis by simp
qed

lemma chunk_12:
  \<open>occurrences card_tag (fixed ['''', ''          <div style="margin-top: 4px; font-size: 11px; color: #6c757d;">'', ''            ''] @ z) = 0 + occurrences card_tag z\<close>
proof -
  have s: \<open>settled card_tag (fixed ['''', ''          <div style="margin-top: 4px; font-size: 11px; color: #6c757d;">'', ''            ''])\<close> by code_simp
  have c: \<open>occurrences card_tag (fixed ['''', ''          <div style="margin-top: 4px; font-size: 11px; color: #6c757d;">'', ''            '']) = 0\<close> by code_simp
  from settled_append [OF s] c show ?thesis by simp
qed

lemma chunk_13:
  \<open>occurrences card_tag (raw '' Baseline Widely: '' @ z) = 0 + occurrences card_tag z\<close>
proof -
  have s: \<open>settled card_tag (raw '' Baseline Widely: '')\<close> by code_simp
  have c: \<open>occurrences card_tag (raw '' Baseline Widely: '') = 0\<close> by code_simp
  from settled_append [OF s] c show ?thesis by simp
qed

lemma chunk_14:
  \<open>occurrences card_tag (fixed ['''', ''          <div style="margin-top: 8px;">'', ''            ''] @ z) = 0 + occurrences card_tag z\<close>
proof -
  have s: \<open>settled card_tag (fixed ['''', ''          <div style="margin-top: 8px;">'', ''            ''])\<close> by code_simp
  have c: \<open>occurrences card_tag (fixed ['''', ''          <div style="margin-top: 8px;">'', ''            '']) = 0\<close> by code_simp
  from settled_append [OF s] c show ?thesis by simp
qed

lemma chunk_15:
  \<open>occurrences card_tag (raw ''<a href="'' @ z) = 0 + occurrences card_tag z\<close>
proof -
  have s: \<open>settled card_tag (raw ''<a href="'')\<close> by code_simp
  have c: \<open>occurrences card_tag (raw ''<a href="'') = 0\<close> by code_simp
  from settled_append [OF s] c show ?thesis by simp
qed

lemma chunk_16:
  \<open>occurrences card_tag (raw ''" target="_blank" style="color: #667eea; text-decoration: none; font-size: 11px;">'' @ z) = 0 + occurrences card_tag z\<close>
proof -
  have s: \<open>settled card_tag (raw ''" target="_blank" style="color: #667eea; text-decoration: none; font-size: 11px;">'')\<close> by code_simp
  have c: \<open>occurrences card_tag (raw ''" target="_blank" style="color: #667eea; text-decoration: none; font-size: 11px;">'') = 0\<close> by code_simp
  from settled_append [OF s] c show ?thesis by simp
qed

lemma chunk_17:
  \<open>occurrences card_tag (raw '' '' @ z) = 0 + occurrences card_tag z\<close>
proof -
  have s: \<open>settled card_tag (raw '' '')\<close> by code_simp
  have c: \<open>occurrences card_tag (raw '' '') = 0\<close> by code_simp
  from settled_append [OF s] c show ?thesis by simp
qed

lemma chunk_18:
  \<open>occurrences card_tag (raw ''</a>'' @ z) = 0 + occurrences card_tag z\<close>
proof -
  have s: \<open>settled card_tag (raw ''</a>'')\<close> by code_simp
  have c: \<open>occurrences card_tag (raw ''</a>'') = 0\<close> by code_simp
  from settled_append [OF s] c show ?thesis by simp
qed

lemma inertD: "inert h \<Longrightarrow> occurrences card_tag (h @ z) = occurrences card_tag z"
  by (simp add: inert_def)

lemma inertI: "(\<And>z. occurrences card_tag (h @ z) = occurrences card_tag z) \<Longrightarrow> inert h"
  by (simp add: inert_def)

lemma plain_append: "plain (a @ b) \<longleftrightarrow> plain a \<and> plain b"
  by (auto simp: plain_def)

lemma plain_or_default: "plain (or_default x []) \<Longrightarrow> plain d \<Longrightarrow> plain (or_default x d)"
  by (auto simp: or_default_def split: option.splits if_splits)

lemma plain_interpolate_lookup:
  assumes key: "plain key" and table: "list_all (\<lambda>p. plain (snd p)) table"
  shows "plain (interpolate_lookup table key)"
proof (cases "map_of table key")
  case None
  have a: "plain ''function ''" and b: "plain ''() { [native code] }''"
    and c: "plain ''[object Object]''" and d: "plain ''undefined''"
    by (simp_all add: plain_def)
  have f: "plain (''function '' @ key @ ''() { [native code] }'')"
    by (simp only: plain_append key a b)
  show ?thesis
  proof (cases "key \<in> set inherited_functions")
    case True
    then have "interpolate_lookup table key = ''function '' @ key @ ''() { [native code] }''"
      by (simp only: interpolate_lookup_def None option.case if_True)
    with f show ?thesis by (simp only:)
  next
    case False
    then have "interpolate_lookup table key =
        (if key = ''__proto__'' then ''[object Object]'' else ''undefined'')"
      by (simp only: interpolate_lookup_def None option.case if_False)
    moreover from c d
    have "plain (if key = ''__proto__'' then ''[object Object]'' else ''undefined'')"
      by simp
    ultimately show ?thesis by (simp only:)
  qed
next
  case (Some v)
  then have "(key, v) \<in> set table" by (rule map_of_SomeD)
  with table have "plain v" by (auto simp: list_all_iff)
  with Some show ?thesis by (simp add: interpolate_lookup_def)
qed

lemma plain_statusLabels: "list_all (\<lambda>p. plain (snd p)) statusLabels"
  by (simp add: statusLabels_def plain_def)

lemma plain_descriptions: "list_all (\<lambda>p. plain (snd p)) descriptions"
  by (simp add: descriptions_def plain_def)

lemma inert_newly_block:
  assumes "case baseline_low_date b of None \<Rightarrow> True | Some d \<Rightarrow> plain (toLocaleDateString pf d)"
  shows "inert (newly_block pf b)"
proof (cases "baseline_low_date b")
  case None
  then show ?thesis by (simp add: newly_block_def inert_Nil)
next
  case (Some d)
  with assms have "inert (raw (toLocaleDateString pf d))" by (simp add: inert_raw)
  then have "occurrences card_tag (raw (toLocaleDateString pf d) @ z) = occurrences card_tag z"
    for z by (rule inertD)
  note d = this
  show ?thesis
  proof (cases "d = []")
    case True
    with Some show ?thesis by (simp add: newly_block_def inert_Nil)
  next
    case False
    have w: "occurrences card_tag ([Wide n] @ z) = occurrences card_tag z" for n z
      using inert_Wide by (rule inertD)
    show ?thesis
      unfolding newly_block_def Some option.case if_not_P [OF False]
      by (rule inertI) (simp only: append_assoc chunk_9 chunk_10 chunk_11 d w add_0)
  qed
qed

lemma inert_widely_block:
  assumes "case baseline_high_date b of None \<Rightarrow> True | Some d \<Rightarrow> plain (toLocaleDateString pf d)"
  shows "inert (widely_block pf b)"
proof (cases "baseline_high_date b")
  case None
  then show ?thesis by (simp add: widely_block_def inert_Nil)
next
  case (Some d)
  with assms have "inert (raw (toLocaleDateString pf d))" by (simp add: inert_raw)
  then have "occurrences card_tag (raw (toLocaleDateString pf d) @ z) = occurrences card_tag z"
    for z by (rule inertD)
  note d = this
  show ?thesis
  proof (cases "d = []")
    case True
    with Some show ?thesis by (simp add: widely_block_def inert_Nil)
  next
    case False
    have w: "occurrences card_tag ([Wide n] @ z) = occurrences card_tag z" for n z
      using inert_Wide by (rule inertD)
    show ?thesis
      unfolding widely_block_def Some option.case if_not_P [OF False]
      by (rule inertI) (simp only: append_assoc chunk_11 chunk_12 chunk_13 d w add_0)
  qed
qed

lemma inert_link_markup:
  assumes "plain link" and "plain hostname"
  shows "inert (link_markup link hostname)"
proof -
  have l: "occurrences card_tag (raw link @ z) = occurrences card_tag z" for z
    using inert_raw [OF assms(1)] by (rule inertD)
  have h: "occurrences card_tag (raw hostname @ z) = occurrences card_tag z" for z
    using inert_raw [OF assms(2)] by (rule inertD)
  have w: "occurrences card_tag ([Wide n] @ z) = occurrences card_tag z" for n z
    using inert_Wide by (rule inertD)
  show ?thesis
    unfolding link_markup_def
    by (rule inertI) (simp only: append_assoc chunk_15 chunk_16 chunk_17 chunk_18 l h w add_0)
qed

lemma inert_join_html:
  "inert sep \<Longrightarrow> list_all inert xs \<Longrightarrow> inert (join_html sep xs)"
  by (induction sep xs rule: join_html.induct) (simp_all add: inert_Nil inert_append)

lemma inert_links:
  "list_all (\<lambda>link. plain link \<and>
       (case url_hostname pf link of None \<Rightarrow> True | Some hostname \<Rightarrow> plain hostname)) ls \<Longrightarrow>
   list_all inert
     (List.map_filter
        (\<lambda>link. case url_hostname pf link of
                   None \<Rightarrow> None
                 | Some hostname \<Rightarrow> Some (link_markup link hostname)) ls)"
  by (induction ls) (auto simp: map_filter_simps inert_link_markup split: option.splits)

lemma inert_space: "inert (raw '' '')"
  by (rule inertI) (simp only: chunk_17 add_0)

lemma inert_links_block:
  assumes "case links of
        None \<Rightarrow> True
      | Some ls \<Rightarrow>
          list_all
            (\<lambda>link. plain link \<and>
               (case url_hostname pf link of None \<Rightarrow> True | Some hostname \<Rightarrow> plain hostname))
            (take 2 ls)"
  shows "inert (links_block pf links)"
proof (cases links)
  case None
  then show ?thesis by (simp add: links_block_def specLinks_markup_def inert_Nil)
next
  case (Some ls)
  define specLinks where "specLinks = join_html (raw '' '')
            (List.map_filter
               (\<lambda>link. case url_hostname pf link of
                          None \<Rightarrow> None
                        | Some hostname \<Rightarrow> Some (link_markup link hostname))
               (take 2 ls))"
  from assms Some have "inert specLinks"
    unfolding specLinks_def by (simp add: inert_join_html inert_links inert_space)
  then have s: "occurrences card_tag (specLinks @ z) = occurrences card_tag z" for z
    by (rule inertD)
  have m: "specLinks_markup pf links = Some specLinks"
    by (simp add: specLinks_markup_def Some specLinks_def)
  show ?thesis
  proof (cases "specLinks = []")
    case True
    with m show ?thesis by (simp add: links_block_def inert_Nil)
  next
    case False
    show ?thesis
      unfolding links_block_def m option.case if_not_P [OF False]
      by (rule inertI) (simp only: append_assoc chunk_14 chunk_11 s add_0)
  qed
qed

lemma card_template_count:
  assumes name: "\<And>z. occurrences card_tag (raw name @ z) = k + occurrences card_tag z"
    and rest: "inert (raw fid)" "inert (raw statusClass)" "inert (raw label)"
      "inert (raw description)" "inert newly" "inert widely" "inert links"
  shows "occurrences card_tag
      (card_template name fid statusClass label description newly widely links @ z) =
    1 + k + occurrences card_tag z"
  unfolding card_template_def
  by (simp only: append_assoc chunk_1 chunk_2 chunk_3 chunk_4 chunk_5 chunk_6 chunk_7 chunk_8
      name rest [THEN inertD] add_0 add.assoc)

lemma createFeatureCard_count:
  assumes "markup_free pf f"
  shows "occurrences card_tag (createFeatureCard pf f @ z) = 1 + occurrences card_tag z"
proof -
  from assms have n: "plain (or_default (name_c f) [])"
    and i: "plain (or_default (feature_id f) [])"
    and s: "plain (or_default (baseline_status (baseline_c f)) [])"
    and lo: "case baseline_low_date (baseline_c f) of
        None \<Rightarrow> True | Some d \<Rightarrow> plain (toLocaleDateString pf d)"
    and hi: "case baseline_high_date (baseline_c f) of
        None \<Rightarrow> True | Some d \<Rightarrow> plain (toLocaleDateString pf d)"
    and li: "case spec_links f of
        None \<Rightarrow> True
      | Some ls \<Rightarrow>
          list_all
            (\<lambda>link. plain link \<and>
               (case url_hostname pf link of None \<Rightarrow> True | Some hostname \<Rightarrow> plain hostname))
            (take 2 ls)"
    unfolding markup_free_def by blast+
  have st: "plain (or_default (baseline_status (baseline_c f)) ''limited'')"
    using s by (rule plain_or_default) (simp add: plain_def)
  have p: "plain ''status-''" by (simp add: plain_def)
  have "inert (raw (or_default (name_c f) ''Unknown Feature''))"
    by (rule inert_raw, rule plain_or_default [OF n]) (simp add: plain_def)
  then have 1: "occurrences card_tag (raw (or_default (name_c f) ''Unknown Feature'') @ z) =
      0 + occurrences card_tag z" for z
    by (simp add: inertD)
  have 2: "inert (raw (or_default (feature_id f) ''unknown''))"
    by (rule inert_raw, rule plain_or_default [OF i]) (simp add: plain_def)
  have 3: "inert (raw (''status-'' @ or_default (baseline_status (baseline_c f)) ''limited''))"
    by (rule inert_raw) (simp only: plain_append st p)
  have 4: "inert (raw (interpolate_lookup statusLabels
      (or_default (baseline_status (baseline_c f)) ''limited'')))"
    by (rule inert_raw, rule plain_interpolate_lookup [OF st plain_statusLabels])
  have 5: "inert (raw (interpolate_lookup descriptions
      (or_default (baseline_status (baseline_c f)) ''limited'')))"
    by (rule inert_raw, rule plain_interpolate_lookup [OF st plain_descriptions])
  have "occurrences card_tag (createFeatureCard pf f @ z) = 1 + 0 + occurrences card_tag z"
    unfolding createFeatureCard_def Let_def
    by (rule card_template_count [OF 1 2 3 4 5 inert_newly_block [OF lo]
          inert_widely_block [OF hi] inert_links_block [OF li]])
  then show ?thesis by simp
qed

lemma cards_count:
  "list_all (markup_free pf) fs \<Longrightarrow>
   occurrences card_tag (concat (map (\<lambda>feature. createFeatureCard pf feature) fs) @ z) =
     length fs + occurrences card_tag z"
  by (induction fs) (simp_all add: createFeatureCard_count)

lemma count_cards_markup_free:
  "list_all (markup_free pf) fs \<Longrightarrow>
   count_cards (concat (map (createFeatureCard pf) fs)) = length fs"
  using cards_count [of pf fs "[]"] by (simp add: count_cards_def)

lemma markup_free_feature_without_baseline:
  "markup_free plain_platform feature_without_baseline"
  by (simp add: markup_free_def feature_without_baseline_def plain_def or_default_def
      baseline_status_def baseline_low_date_def baseline_high_date_def)

lemma markup_name_count:
  \<open>occurrences card_tag (raw ''<div class="feature-card"></div>'' @ z) =
     1 + occurrences card_tag z\<close>
proof -
  have s: \<open>settled card_tag (raw ''<div class="feature-card"></div>'')\<close> by code_simp
  have c: \<open>occurrences card_tag (raw ''<div class="feature-card"></div>'') = 1\<close> by code_simp
  from settled_append [OF s] c show ?thesis by simp
qed

lemma markup_named_feature_card:
  \<open>createFeatureCard plain_platform markup_named_feature =
     card_template ''<div class="feature-card"></div>'' ''grid'' ''status-limited''
       ''Limited Support'' ''Limited browser support - use with caution'' [] [] []\<close>
  by (simp add: createFeatureCard_def markup_named_feature_def or_default_def
      baseline_status_def statusLabels_def descriptions_def interpolate_lookup_def
      newly_block_def widely_block_def links_block_def baseline_low_date_def
      baseline_high_date_def specLinks_markup_def)

lemma markup_named_feature_count:
  "count_cards (createFeatureCard plain_platform markup_named_feature) = 2"
proof -
  have "occurrences card_tag (createFeatureCard plain_platform markup_named_feature @ []) =
      1 + 1 + occurrences card_tag []"
    unfolding markup_named_feature_card
    by (rule card_template_count [OF markup_name_count])
      (simp_all add: inert_raw inert_Nil plain_def)
  then show ?thesis by (simp add: count_cards_def)
qed


text \<open>
  Claim C7, as stated, has the panel render exactly one card for each feature it
  shows. The card markup takes the catalog strings as they are and the browser
  parses the result, so a string that holds markup adds elements: for one feature
  whose name is the markup of an empty card, the markup written to the results
  element holds two card opening tags.
\<close>

theorem displayResults_cards_counterexample:
  "length [markup_named_feature] = 1 \<and>
   results_children (displayResults plain_platform [markup_named_feature] True blank_document) =
     [Markup (createFeatureCard plain_platform markup_named_feature)] \<and>
   rendered_cards
     (results_children (displayResults plain_platform [markup_named_feature] True blank_document)) = 2"
proof -
  have c: "results_children
      (displayResults plain_platform [markup_named_feature] True blank_document) =
     [Markup (createFeatureCard plain_platform markup_named_feature)]"
    by (simp add: displayResults_def Let_def)
  show ?thesis unfolding c by (simp add: rendered_cards_def markup_named_feature_count)
qed

text \<open>
  Claim C7, amended. For a result list of length \<open>M\<close>: if \<open>M = 0\<close> the empty-state
  view is shown, the \<open>results\<close> element is hidden and nothing is written into it; if
  \<open>M > 8\<close> the markup written to the element is the card markup of the first 8
  features, one after the other, exactly 8 of them, followed by the message
  \<open>Showing 8 of M results\<close>; if \<open>0 < M \<le> 8\<close> it is the card markup of all \<open>M\<close>
  features and there is no message. The catalog strings stand unescaped in the
  markup: when the strings that go into the cards shown (name, id, status, the date
  texts, the links and their host names) hold none of the characters
  \<open><\<close>, \<open>>\<close>, \<open>&\<close> and the two quotes, the markup holds exactly 8, respectively
  \<open>M\<close>, card opening tags.
\<close>

theorem displayResults_markup:
  "(length fs = 0 \<longrightarrow>
      displayResults pf fs u p = p\<lparr>results_display := ''none'', noResults_display := ''block''\<rparr> \<and>
      results_children (displayResults pf fs u p) = results_children p) \<and>
   (8 < length fs \<longrightarrow>
      results_display (displayResults pf fs u p) = ''block'' \<and>
      noResults_display (displayResults pf fs u p) = ''none'' \<and>
      results_children (displayResults pf fs u p) =
        [Markup (concat (map (createFeatureCard pf) (take 8 fs))),
         MoreMessage (''Showing 8 of '' @ toString (length fs) @ '' results'')] \<and>
      length (map (createFeatureCard pf) (take 8 fs)) = 8 \<and>
      (list_all (markup_free pf) (take 8 fs) \<longrightarrow>
         rendered_cards (results_children (displayResults pf fs u p)) = 8)) \<and>
   (0 < length fs \<and> length fs \<le> 8 \<longrightarrow>
      results_display (displayResults pf fs u p) = ''block'' \<and>
      noResults_display (displayResults pf fs u p) = ''none'' \<and>
      results_children (displayResults pf fs u p) =
        [Markup (concat (map (createFeatureCard pf) fs))] \<and>
      length (map (createFeatureCard pf) fs) = length fs \<and>
      (list_all (markup_free pf) fs \<longrightarrow>
         rendered_cards (results_children (displayResults pf fs u p)) = length fs))"
proof (intro conjI impI)
  assume "length fs = 0"
  then show "displayResults pf fs u p = p\<lparr>results_display := ''none'', noResults_display := ''block''\<rparr>"
    by (simp add: displayResults_def showNoResults_def)
  then show "results_children (displayResults pf fs u p) = results_children p"
    by simp
next
  assume m: "8 < length fs"
  then have l: "length (take 8 fs) = 8" by simp
  from m have ne: "fs \<noteq> []" by auto
  from m ne show "results_display (displayResults pf fs u p) = ''block''"
    and "noResults_display (displayResults pf fs u p) = ''none''"
    by (simp_all add: displayResults_def Let_def)
  from m ne show c: "results_children (displayResults pf fs u p) =
        [Markup (concat (map (createFeatureCard pf) (take 8 fs))),
         MoreMessage (''Showing 8 of '' @ toString (length fs) @ '' results'')]"
    by (simp add: displayResults_def Let_def l toString_8 del: length_take)
  show "length (map (createFeatureCard pf) (take 8 fs)) = 8"
    using l by (simp del: length_take)
  assume "list_all (markup_free pf) (take 8 fs)"
  then have "count_cards (concat (map (createFeatureCard pf) (take 8 fs))) = length (take 8 fs)"
    by (rule count_cards_markup_free)
  with l show "rendered_cards (results_children (displayResults pf fs u p)) = 8"
    unfolding c by (simp add: rendered_cards_def del: length_take)
next
  assume m: "0 < length fs \<and> length fs \<le> 8"
  then show "results_display (displayResults pf fs u p) = ''block''"
    and "noResults_display (displayResults pf fs u p) = ''none''"
    by (simp_all add: displayResults_def Let_def)
  from m show c: "results_children (displayResults pf fs u p) =
        [Markup (concat (map (createFeatureCard pf) fs))]"
    by (simp add: displayResults_def Let_def)
  show "length (map (createFeatureCard pf) fs) = length fs" by simp
  assume "list_all (markup_free pf) fs"
  then have "count_cards (concat (map (createFeatureCard pf) fs)) = length fs"
    by (rule count_cards_markup_free)
  then show "rendered_cards (results_children (displayResults pf fs u p)) = length fs"
    unfolding c by (simp add: rendered_cards_def)
qed

theorem displayResults_markup_witness:
  "length (replicate 12 feature_without_baseline) = 12 \<and>
   results_children (displayResults plain_platform (replicate 12 feature_without_baseline) True blank_document) =
     [Markup (concat (replicate 8 (createFeatureCard plain_platform feature_without_baseline))),
      MoreMessage ''Showing 8 of 12 results''] \<and>
   list_all (markup_free plain_platform) (take 8 (replicate 12 feature_without_baseline)) \<and>
   rendered_cards
     (results_children
       (displayResults plain_platform (replicate 12 feature_without_baseline) True blank_document)) = 8 \<and>
   displayResults plain_platform [] True blank_document =
     blank_document\<lparr>results_display := ''none'', noResults_display := ''block''\<rparr> \<and>
   results_children (displayResults plain_platform [feature_without_baseline] True blank_document) =
     [Markup (createFeatureCard plain_platform feature_without_baseline)] \<and>
   rendered_cards
     (results_children
       (displayResults plain_platform [feature_without_baseline] True blank_document)) = 1"
proof -
  have l: "length (replicate 12 feature_without_baseline) = 12" by simp
  have t: "take 8 (replicate 12 feature_without_baseline) = replicate 8 feature_without_baseline"
    by simp
  have f: "list_all (markup_free plain_platform) (take 8 (replicate 12 feature_without_baseline))"
    unfolding t by (simp add: list_all_iff markup_free_feature_without_baseline)
  have g: "list_all (markup_free plain_platform) [feature_without_baseline]"
    by (simp add: markup_free_feature_without_baseline)
  have h: "8 < length (replicate 12 feature_without_baseline)" by simp
  note r = displayResults_markup [of "replicate 12 feature_without_baseline" plain_platform True
      blank_document, THEN conjunct2, THEN conjunct1, rule_format, OF h]
  from r [THEN conjunct2, THEN conjunct2, THEN conjunct1]
  have a: "results_children
      (displayResults plain_platform (replicate 12 feature_without_baseline) True blank_document) =
     [Markup (concat (replicate 8 (createFeatureCard plain_platform feature_without_baseline))),
      MoreMessage ''Showing 8 of 12 results'']"
    by (simp add: toString_12)
  note b = r [THEN conjunct2, THEN conjunct2, THEN conjunct2, THEN conjunct2, rule_format, OF f]
  from displayResults_markup [of "[]" plain_platform True blank_document]
  have c: "displayResults plain_platform [] True blank_document =
     blank_document\<lparr>results_display := ''none'', noResults_display := ''block''\<rparr>"
    by simp
  have k: "0 < length [feature_without_baseline] \<and> length [feature_without_baseline] \<le> 8"
    by simp
  note q = displayResults_markup [of "[feature_without_baseline]" plain_platform True
      blank_document, THEN conjunct2, THEN conjunct2, rule_format, OF k]
  from q [THEN conjunct2, THEN conjunct2, THEN conjunct1]
  have d: "results_children
      (displayResults plain_platform [feature_without_baseline] True blank_document) =
     [Markup (createFeatureCard plain_platform feature_without_baseline)]"
    by simp
  from q [THEN conjunct2, THEN conjunct2, THEN conjunct2, THEN conjunct2, rule_format, OF g]
  have e: "rendered_cards
     (results_children
       (displayResults plain_platform [feature_without_baseline] True blank_document)) = 1"
    by simp
  show ?thesis by (intro conjI) (rule l a f b c d e)+
qed

lemma trim_whitespace: "list_all isWhiteSpace s \<Longrightarrow> trim s = []"
proof -
  assume "list_all isWhiteSpace s"
  then have "\<forall>x \<in> set s. isWhiteSpace x"
    by (simp only: list_all_iff)
  then have d: "dropWhile isWhiteSpace s = []"
    by (simp only: dropWhile_eq_Nil_conv)
  show ?thesis unfolding trim_def d by simp
qed

text \<open>
  Claim C10. When the search field is empty or holds only white space, the search
  action (\<open>handleSearch\<close>, reached by a click on the button or by Enter in the
  field) leaves the whole panel as it is: no request is issued, and the results, the
  loading state and the empty-state view are unchanged.
\<close>

theorem handleSearch_blank:
  assumes "list_all isWhiteSpace (searchInput_value p)"
  shows "handleSearch p = p \<and> step pf Click p = p \<and> step pf (Keypress ''Enter'') p = p"
  using trim_whitespace [OF assms]
  by (simp add: handleSearch_def step_def)

theorem handleSearch_blank_witness:
  "list_all isWhiteSpace ''   '' \<and>
   handleSearch (blank_document\<lparr>searchInput_value := ''   '', listeners := True\<rparr>) =
     blank_document\<lparr>searchInput_value := ''   '', listeners := True\<rparr> \<and>
   step plain_platform Click (blank_document\<lparr>searchInput_value := ''   '', listeners := True\<rparr>) =
     blank_document\<lparr>searchInput_value := ''   '', listeners := True\<rparr> \<and>
   step plain_platform (Keypress ''Enter'') (blank_document\<lparr>searchInput_value := ''   '', listeners := True\<rparr>) =
     blank_document\<lparr>searchInput_value := ''   '', listeners := True\<rparr>"
proof -
  have w: "list_all isWhiteSpace ''   ''" by (simp add: isWhiteSpace_def)
  then have "list_all isWhiteSpace
      (searchInput_value (blank_document\<lparr>searchInput_value := ''   '', listeners := True\<rparr>))"
    by simp
  from handleSearch_blank [OF this, of plain_platform] w show ?thesis by simp
qed

lemma requests_BaselinePopup:
  "requests (BaselinePopup d) =
     [StorageGet ''pendingSearch'', TabsQuery, Fetch (search_url ''baseline_status:newly'')]"
  by (simp add: BaselinePopup_def init_def searchFeatures_def loadDetectedFeatures_def
      checkPendingSearch_def issue_def showLoading_def)

lemma pending_BaselinePopup:
  "pending (BaselinePopup d) =
     [(0, After_storage_get), (1, After_tabs_query), (2, After_fetch False)]"
  by (simp add: BaselinePopup_def init_def searchFeatures_def loadDetectedFeatures_def
      checkPendingSearch_def issue_def showLoading_def)

lemma searchInput_BaselinePopup: "searchInput_value (BaselinePopup d) = searchInput_value d"
  by (simp add: BaselinePopup_def init_def searchFeatures_def loadDetectedFeatures_def
      checkPendingSearch_def issue_def showLoading_def)

lemma listeners_BaselinePopup: "listeners (BaselinePopup d)"
  by (simp add: BaselinePopup_def init_def searchFeatures_def loadDetectedFeatures_def
      checkPendingSearch_def issue_def showLoading_def)

lemma requests_displayResults: "requests (displayResults pf fs u p) = requests p"
  by (simp add: displayResults_def showNoResults_def Let_def)

lemma pending_displayResults: "pending (displayResults pf fs u p) = pending p"
  by (simp add: displayResults_def showNoResults_def Let_def)

lemma searchInput_displayResults:
  "searchInput_value (displayResults pf fs u p) = searchInput_value p"
  by (simp add: displayResults_def showNoResults_def Let_def)

lemma searchFeatures_resume_frame:
  "requests (searchFeatures_resume pf u r p) = requests p \<and>
   pending (searchFeatures_resume pf u r p) = pending p \<and>
   searchInput_value (searchFeatures_resume pf u r p) = searchInput_value p"
  by (simp add: searchFeatures_resume_def hideLoading_def showError_def log_def
      requests_displayResults pending_displayResults searchInput_displayResults
      split: settlement.splits body.splits)

lemma sendMessage_callback_frame:
  "requests (sendMessage_callback r p) = requests p \<and>
   pending (sendMessage_callback r p) = pending p \<and>
   searchInput_value (sendMessage_callback r p) = searchInput_value p"
  by (simp add: sendMessage_callback_def displayDetectedFeatures_def log_def Let_def
      split: settlement.splits option.splits)

lemma loadDetectedFeatures_resume_frame:
  "(\<exists>rest. requests (loadDetectedFeatures_resume r p) = requests p @ rest \<and>
       list_all (\<lambda>q. \<not> is_fetch q) rest) \<and>
   (\<exists>more. pending (loadDetectedFeatures_resume r p) = pending p @ more \<and>
       After_storage_get \<notin> snd ` set more) \<and>
   searchInput_value (loadDetectedFeatures_resume r p) = searchInput_value p"
  by (simp add: loadDetectedFeatures_resume_def issue_def log_def is_fetch_def
      split: settlement.splits list.splits)

lemma requests_handleSearch:
  "\<exists>rest. requests (handleSearch p) = requests p @ rest"
  by (simp add: handleSearch_def searchFeatures_def issue_def showLoading_def Let_def)

lemma requests_checkPendingSearch_resume:
  "\<exists>rest. requests (checkPendingSearch_resume r p) = requests p @ rest"
  by (simp add: checkPendingSearch_resume_def handleSearch_def searchFeatures_def issue_def
      issue_only_def showLoading_def log_def Let_def split: settlement.splits option.splits)

lemma requests_resume: "\<exists>rest. requests (resume pf k r p) = requests p @ rest"
proof (cases k)
  case After_storage_get
  then show ?thesis by (simp add: resume_def requests_checkPendingSearch_resume)
next
  case After_tabs_query
  with loadDetectedFeatures_resume_frame [of r p] show ?thesis
    by (auto simp: resume_def)
next
  case After_sendMessage
  then show ?thesis by (simp add: resume_def sendMessage_callback_frame)
next
  case (After_fetch u)
  then show ?thesis by (simp add: resume_def searchFeatures_resume_frame)
qed

lemma requests_step: "\<exists>rest. requests (step pf e p) = requests p @ rest"
proof (cases e)
  case (Settle n r)
  show ?thesis
  proof (cases "map_of (pending p) n")
    case None
    with Settle show ?thesis by (simp add: step_def)
  next
    case (Some k)
    from requests_resume [of pf k r "p\<lparr>pending := filter (\<lambda>w. fst w \<noteq> n) (pending p)\<rparr>"]
    show ?thesis using Settle Some by (simp add: step_def)
  qed
next
  case Click
  with requests_handleSearch [of p] show ?thesis by (simp add: step_def)
next
  case (Keypress key)
  with requests_handleSearch [of p] show ?thesis by (simp add: step_def)
next
  case (Typed s)
  then show ?thesis by (simp add: step_def)
qed

lemma requests_run: "\<exists>rest. requests (run pf es p) = requests p @ rest"
proof (induction es arbitrary: p)
  case Nil
  then show ?case by (simp add: run_def)
next
  case (Cons e es)
  from requests_step [of pf e p] obtain r1 where r1: "requests (step pf e p) = requests p @ r1"
    by blast
  from Cons [of "step pf e p"] obtain r2 where
    "requests (run pf es (step pf e p)) = requests (step pf e p) @ r2" by blast
  with r1 have "requests (run pf (e # es) p) = requests p @ (r1 @ r2)"
    by (simp add: run_def)
  then show ?case by blast
qed

lemma url_newly:
  "search_url ''baseline_status:newly'' =
     ''https://api.webstatus.dev/v1/features?q=baseline_status%3Anewly''"
  by (simp add: search_url_def encodeURIComponent_def encode_unit_def unreserved_def hex2_def)

lemma url_grid:
  "search_url ''name:grid OR id:grid'' =
     ''https://api.webstatus.dev/v1/features?q=name%3Agrid%20OR%20id%3Agrid''"
  by (simp add: search_url_def encodeURIComponent_def encode_unit_def unreserved_def hex2_def)

text \<open>
  Claim C5, amended. On every open of the panel the constructor issues, in this
  order, the storage read of the pending-search check, the query for the active tab
  and the request of the default search for \<open>baseline_status:newly\<close>, the last one
  with \<open>isUserSearch = false\<close>; when it returns, the storage read has not been
  answered and the search field is untouched. Whatever happens afterwards, these
  three stay the first three requests: the search that a pending value triggers is
  issued after the default search.
\<close>

theorem init_order:
  "requests (BaselinePopup d) =
     [StorageGet ''pendingSearch'', TabsQuery, Fetch (search_url ''baseline_status:newly'')] \<and>
   pending (BaselinePopup d) =
     [(0, After_storage_get), (1, After_tabs_query), (2, After_fetch False)] \<and>
   searchInput_value (BaselinePopup d) = searchInput_value d \<and>
   (\<forall>es. take 3 (requests (run pf es (BaselinePopup d))) =
     [StorageGet ''pendingSearch'', TabsQuery, Fetch (search_url ''baseline_status:newly'')])"
proof (intro conjI allI)
  fix es
  from requests_run [of pf es "BaselinePopup d"] obtain rest where
    "requests (run pf es (BaselinePopup d)) = requests (BaselinePopup d) @ rest" by blast
  then show "take 3 (requests (run pf es (BaselinePopup d))) =
     [StorageGet ''pendingSearch'', TabsQuery, Fetch (search_url ''baseline_status:newly'')]"
    by (simp add: requests_BaselinePopup)
qed (simp_all add: requests_BaselinePopup pending_BaselinePopup searchInput_BaselinePopup)

theorem init_order_witness:
  "take 3 (requests (run plain_platform [Typed ''flex'', Click] (BaselinePopup blank_document))) =
     [StorageGet ''pendingSearch'', TabsQuery,
      Fetch ''https://api.webstatus.dev/v1/features?q=baseline_status%3Anewly''] \<and>
   pending (BaselinePopup blank_document) =
     [(0, After_storage_get), (1, After_tabs_query), (2, After_fetch False)]"
  using init_order [of blank_document plain_platform] url_newly
  by simp

lemma trim_grid: "trim ''grid'' = ''grid''"
  by (simp add: trim_def isWhiteSpace_def)

lemma open_with_pending:
  assumes "v \<noteq> []" "trim v = v"
  shows "step pf (Settle 0 (StorageItems (Some v))) (BaselinePopup d) =
     (BaselinePopup d)
       \<lparr>searchInput_value := v,
        loadingState_display := ''block'', results_display := ''none'',
        noResults_display := ''none'',
        requests :=
          [StorageGet ''pendingSearch'', TabsQuery, Fetch (search_url ''baseline_status:newly''),
           Fetch (search_url (''name:'' @ v @ '' OR id:'' @ v)), StorageRemove ''pendingSearch''],
        pending := [(1, After_tabs_query), (2, After_fetch False), (3, After_fetch True)]\<rparr>"
  using assms
  by (simp add: step_def pending_BaselinePopup requests_BaselinePopup resume_def
      checkPendingSearch_resume_def handleSearch_def searchFeatures_def issue_def issue_only_def
      showLoading_def Let_def)


lemma trim_idem: "trim (trim s) = trim s"
proof -
  define u where "u = dropWhile isWhiteSpace s"
  define t where "t = rev (dropWhile isWhiteSpace (rev u))"
  have ts: "trim s = t" by (simp add: trim_def t_def u_def)
  have rear: "dropWhile isWhiteSpace (rev t) = rev t"
    by (simp add: t_def)
  have front: "dropWhile isWhiteSpace t = t"
  proof (cases t)
    case Nil
    then show ?thesis by simp
  next
    case (Cons x xs)
    have "rev (rev (dropWhile isWhiteSpace (rev u)) @ rev (takeWhile isWhiteSpace (rev u))) = rev u"
      by (simp only: rev_append rev_rev_ident takeWhile_dropWhile_id)
    then have "t @ rev (takeWhile isWhiteSpace (rev u)) = u"
      unfolding t_def by (simp only: rev_is_rev_conv)
    with Cons have u: "u = x # (xs @ rev (takeWhile isWhiteSpace (rev u)))" by simp
    then have "u \<noteq> []" by (metis list.distinct(1))
    then have "\<not> isWhiteSpace (hd u)"
      unfolding u_def by (rule hd_dropWhile)
    moreover from u have "hd u = x" by (metis list.sel(1))
    ultimately have "\<not> isWhiteSpace x" by simp
    with Cons show ?thesis by simp
  qed
  have "trim t = t"
    unfolding trim_def front rear by simp
  then show ?thesis by (simp only: ts)
qed

lemma onClicked_stores_trimmed:
  assumes "menuItemId info = ''checkBaseline''" "selectionText info = Some sel" "sel \<noteq> []"
  shows "pendingSearch (store (onClicked info c)) = Some (trim sel)"
  using assms by (simp add: onClicked_def)

lemma settle_step_no_fetch:
  assumes inv: "After_storage_get \<notin> snd ` set (pending p)" and e: "is_settle e"
  shows "filter is_fetch (requests (step pf e p)) = filter is_fetch (requests p) \<and>
         After_storage_get \<notin> snd ` set (pending (step pf e p)) \<and>
         searchInput_value (step pf e p) = searchInput_value p"
proof -
  from e obtain n r where en: "e = Settle n r"
    by (cases e) (simp_all add: is_settle_def)
  show ?thesis
  proof (cases "map_of (pending p) n")
    case None
    with en inv show ?thesis by (simp add: step_def)
  next
    case (Some k)
    define q where "q = p\<lparr>pending := filter (\<lambda>w. fst w \<noteq> n) (pending p)\<rparr>"
    have st: "step pf e p = resume pf k r q"
      using en Some by (simp add: step_def q_def)
    have qinv: "After_storage_get \<notin> snd ` set (pending q)"
      using inv by (auto simp: q_def)
    have qr: "requests q = requests p" and qs: "searchInput_value q = searchInput_value p"
      by (simp_all add: q_def)
    from Some have "(n, k) \<in> set (pending p)" by (rule map_of_SomeD)
    then have "k \<in> snd ` set (pending p)" by force
    with inv have kne: "k \<noteq> After_storage_get" by metis
    show ?thesis
    proof (cases k)
      case After_storage_get
      with kne show ?thesis by simp
    next
      case After_tabs_query
      from loadDetectedFeatures_resume_frame [of r q] obtain rest more where
        "requests (loadDetectedFeatures_resume r q) = requests q @ rest"
        "list_all (\<lambda>x. \<not> is_fetch x) rest"
        "pending (loadDetectedFeatures_resume r q) = pending q @ more"
        "After_storage_get \<notin> snd ` set more"
        "searchInput_value (loadDetectedFeatures_resume r q) = searchInput_value q"
        by blast
      with After_tabs_query qinv qr qs show ?thesis
        unfolding st by (auto simp: resume_def list_all_iff filter_empty_conv)
    next
      case After_sendMessage
      with sendMessage_callback_frame [of r q] qinv qr qs show ?thesis
        unfolding st by (simp add: resume_def)
    next
      case (After_fetch u)
      with searchFeatures_resume_frame [of pf u r q] qinv qr qs show ?thesis
        unfolding st by (simp add: resume_def)
    qed
  qed
qed

lemma settle_run_no_fetch:
  assumes "After_storage_get \<notin> snd ` set (pending p)" "list_all is_settle es"
  shows "filter is_fetch (requests (run pf es p)) = filter is_fetch (requests p) \<and>
         searchInput_value (run pf es p) = searchInput_value p"
  using assms
proof (induction es arbitrary: p)
  case Nil
  then show ?case by (simp add: run_def)
next
  case (Cons e es)
  from Cons.prems have e: "is_settle e" and es: "list_all is_settle es" by simp_all
  from settle_step_no_fetch [OF Cons.prems(1) e, of pf]
  have 1: "filter is_fetch (requests (step pf e p)) = filter is_fetch (requests p)"
    and 2: "After_storage_get \<notin> snd ` set (pending (step pf e p))"
    and 3: "searchInput_value (step pf e p) = searchInput_value p" by simp_all
  from Cons.IH [OF 2 es] 1 3 show ?case by (simp add: run_def)
qed

lemma open_without_pending:
  "step pf (Settle 0 (StorageItems None)) (BaselinePopup d) =
     (BaselinePopup d)\<lparr>pending := [(1, After_tabs_query), (2, After_fetch False)]\<rparr>"
  by (simp add: step_def pending_BaselinePopup resume_def checkPendingSearch_resume_def)

text \<open>
  Claim C6. Let the store hold a pending search value \<open>v\<close> as the Coordinator
  writes it: not empty, and a trimmed selection. Opening the panel puts \<open>v\<close> into
  the search field, issues the search for \<open>v\<close> (the query
  \<open>name:v OR id:v\<close>) and removes the value from the store. A second open without a
  new write reads no pending value: it leaves the search field as the document has
  it, issues the three requests of every open and no other, leaves the store as it
  is, and however its requests settle, the default search stays its only search.
\<close>

theorem pending_search_consumed_once:
  assumes "pendingSearch s = Some v" "v \<noteq> []" "v = trim sel"
  shows
    "searchInput_value (fst (open_panel pf s d)) = v \<and>
     requests (fst (open_panel pf s d)) =
       [StorageGet ''pendingSearch'', TabsQuery, Fetch (search_url ''baseline_status:newly''),
        Fetch (search_url (''name:'' @ v @ '' OR id:'' @ v)), StorageRemove ''pendingSearch''] \<and>
     pendingSearch (snd (open_panel pf s d)) = None \<and>
     requests (fst (open_panel pf (snd (open_panel pf s d)) d2)) =
       [StorageGet ''pendingSearch'', TabsQuery, Fetch (search_url ''baseline_status:newly'')] \<and>
     searchInput_value (fst (open_panel pf (snd (open_panel pf s d)) d2)) = searchInput_value d2 \<and>
     snd (open_panel pf (snd (open_panel pf s d)) d2) = snd (open_panel pf s d) \<and>
     (\<forall>es. list_all is_settle es \<longrightarrow>
        filter is_fetch (requests (run pf es (fst (open_panel pf (snd (open_panel pf s d)) d2)))) =
          [Fetch (search_url ''baseline_status:newly'')])"
proof -
  from assms(3) have tv: "trim v = v" by (simp only: trim_idem)
  define s1 where "s1 = snd (open_panel pf s d)"
  have p1: "fst (open_panel pf s d) = step pf (Settle 0 (StorageItems (Some v))) (BaselinePopup d)"
    using assms(1) by (simp add: open_panel_def storage_read_def Let_def)
  have r1: "requests (fst (open_panel pf s d)) =
       [StorageGet ''pendingSearch'', TabsQuery, Fetch (search_url ''baseline_status:newly''),
        Fetch (search_url (''name:'' @ v @ '' OR id:'' @ v)), StorageRemove ''pendingSearch'']"
    unfolding p1 open_with_pending [OF assms(2) tv] by simp
  have v1: "searchInput_value (fst (open_panel pf s d)) = v"
    unfolding p1 open_with_pending [OF assms(2) tv] by simp
  have "s1 = foldl storage_effect s (requests (fst (open_panel pf s d)))"
    by (simp add: s1_def open_panel_def Let_def)
  then have s1: "s1 = s\<lparr>pendingSearch := None\<rparr>"
    unfolding r1 by (simp add: storage_effect_def)
  then have n1: "pendingSearch s1 = None" by simp
  have p2: "fst (open_panel pf s1 d2) = step pf (Settle 0 (StorageItems None)) (BaselinePopup d2)"
    using n1 by (simp add: open_panel_def storage_read_def Let_def)
  have r2: "requests (fst (open_panel pf s1 d2)) =
       [StorageGet ''pendingSearch'', TabsQuery, Fetch (search_url ''baseline_status:newly'')]"
    unfolding p2 open_without_pending by (simp add: requests_BaselinePopup)
  have v2: "searchInput_value (fst (open_panel pf s1 d2)) = searchInput_value d2"
    unfolding p2 open_without_pending by (simp add: searchInput_BaselinePopup)
  have "snd (open_panel pf s1 d2) = foldl storage_effect s1 (requests (fst (open_panel pf s1 d2)))"
    by (simp add: open_panel_def Let_def)
  then have s2: "snd (open_panel pf s1 d2) = s1"
    unfolding r2 by (simp add: storage_effect_def)
  have inv: "After_storage_get \<notin> snd ` set (pending (fst (open_panel pf s1 d2)))"
    unfolding p2 open_without_pending by simp
  have later: "filter is_fetch (requests (run pf es (fst (open_panel pf s1 d2)))) =
      [Fetch (search_url ''baseline_status:newly'')]" if "list_all is_settle es" for es
    using settle_run_no_fetch [OF inv that, of pf] unfolding r2 by (simp add: is_fetch_def)
  from v1 r1 n1 r2 v2 s2 later show ?thesis
    unfolding s1_def by blast
qed

theorem pending_search_consumed_once_witness:
  "pendingSearch grid_store = Some ''grid'' \<and> ''grid'' = trim '' grid '' \<and>
   searchInput_value (fst (open_panel plain_platform grid_store blank_document)) = ''grid'' \<and>
   requests (fst (open_panel plain_platform grid_store blank_document)) =
     [StorageGet ''pendingSearch'', TabsQuery,
      Fetch ''https://api.webstatus.dev/v1/features?q=baseline_status%3Anewly'',
      Fetch ''https://api.webstatus.dev/v1/features?q=name%3Agrid%20OR%20id%3Agrid'',
      StorageRemove ''pendingSearch''] \<and>
   pendingSearch (snd (open_panel plain_platform grid_store blank_document)) = None \<and>
   requests (fst (open_panel plain_platform
       (snd (open_panel plain_platform grid_store blank_document)) blank_document)) =
     [StorageGet ''pendingSearch'', TabsQuery,
      Fetch ''https://api.webstatus.dev/v1/features?q=baseline_status%3Anewly''] \<and>
   searchInput_value (fst (open_panel plain_platform
       (snd (open_panel plain_platform grid_store blank_document)) blank_document)) = []"
proof -
  have a: "pendingSearch grid_store = Some ''grid''" by (simp add: grid_store_def)
  have b: "''grid'' \<noteq> []" by simp
  have c: "trim '' grid '' = ''grid''" by (simp add: trim_def isWhiteSpace_def)
  from pending_search_consumed_once [OF a b c [symmetric], of plain_platform blank_document blank_document]
  have "searchInput_value (fst (open_panel plain_platform grid_store blank_document)) = ''grid'' \<and>
     requests (fst (open_panel plain_platform grid_store blank_document)) =
       [StorageGet ''pendingSearch'', TabsQuery, Fetch (search_url ''baseline_status:newly''),
        Fetch (search_url ''name:grid OR id:grid''), StorageRemove ''pendingSearch''] \<and>
     pendingSearch (snd (open_panel plain_platform grid_store blank_document)) = None \<and>
     requests (fst (open_panel plain_platform
         (snd (open_panel plain_platform grid_store blank_document)) blank_document)) =
       [StorageGet ''pendingSearch'', TabsQuery, Fetch (search_url ''baseline_status:newly'')] \<and>
     searchInput_value (fst (open_panel plain_platform
         (snd (open_panel plain_platform grid_store blank_document)) blank_document)) =
       searchInput_value blank_document"
    by simp
  moreover have "searchInput_value blank_document = []" by (simp add: blank_document_def)
  ultimately show ?thesis using a c by (simp add: url_newly url_grid)
qed

text \<open>
  Claim C5, as stated, has the search that a pending value triggers executed before
  the default search is issued. With the pending value \<open>grid\<close> the requests of the
  panel are the storage read, the tab query, the default search, the search for
  \<open>grid\<close> and the removal: the default search is issued first.
\<close>

theorem pending_search_after_default_counterexample:
  "requests (run plain_platform [Settle 0 (StorageItems (Some ''grid''))]
      (BaselinePopup blank_document)) =
     [StorageGet ''pendingSearch'', TabsQuery,
      Fetch (search_url ''baseline_status:newly''),
      Fetch (search_url ''name:grid OR id:grid''),
      StorageRemove ''pendingSearch''] \<and>
   \<not> issued_before (Fetch (search_url ''name:grid OR id:grid''))
       (Fetch (search_url ''baseline_status:newly''))
       (requests (run plain_platform [Settle 0 (StorageItems (Some ''grid''))]
          (BaselinePopup blank_document))) \<and>
   issued_before (Fetch (search_url ''baseline_status:newly''))
       (Fetch (search_url ''name:grid OR id:grid''))
       (requests (run plain_platform [Settle 0 (StorageItems (Some ''grid''))]
          (BaselinePopup blank_document)))"
proof -
  have r: "requests (run plain_platform [Settle 0 (StorageItems (Some ''grid''))]
      (BaselinePopup blank_document)) =
     [StorageGet ''pendingSearch'', TabsQuery,
      Fetch (search_url ''baseline_status:newly''),
      Fetch (search_url ''name:grid OR id:grid''),
      StorageRemove ''pendingSearch'']"
    using open_with_pending [of "''grid''" plain_platform blank_document] trim_grid
    by (simp add: run_def)
  show ?thesis unfolding r by (simp add: issued_before_def url_newly url_grid)
qed

end
